theory Spec2Isabelle
  imports Complex_Main
begin

section \<open>Numbers, typed arrays and geometries\<close>

text \<open>
  The elements of \<open>position.array\<close> (a typed array of floats) and the radius of a sphere
  are JavaScript numbers: a finite value, one of the two infinities, or NaN. Every finite
  float is a rational number; \<open>-0\<close> and \<open>+0\<close> are one value here, as \<open>===\<close> already
  treats them.
\<close>

datatype jsnum = Number rat | Infinity | NegInfinity | NaN

fun isNaN :: "jsnum \<Rightarrow> bool" where
  "isNaN NaN = True"
| "isNaN _ = False"

fun isFinite :: "jsnum \<Rightarrow> bool" where
  "isFinite (Number _) = True"
| "isFinite _ = False"

datatype vector3 = Vector3 jsnum jsnum jsnum

record sphere =
  center :: vector3
  radius :: jsnum

text \<open>
  Of an attribute the pass reads \<open>array\<close> and writes \<open>needsUpdate\<close>; of a geometry it
  reads \<open>attributes\<close> and \<open>boundingSphere\<close>. \<open>itemSize\<close> and \<open>index\<close> are fields that it
  never names.
\<close>

record buffer_attribute =
  array :: "jsnum list"
  itemSize :: nat
  needsUpdate :: bool

record buffer_geometry =
  attributes :: "string \<rightharpoonup> buffer_attribute"
  index :: "buffer_attribute option"
  boundingSphere :: "sphere option"

text \<open>
  The operations of the cleaning pass, recorded in the order in which they happen: one
  \<open>Iteration i\<close> for each time the body of the loop runs with index \<open>i\<close>, the two console
  calls, the assignment \<open>position.needsUpdate = true\<close> and the call of the library's
  \<open>geometry.computeBoundingSphere()\<close>.
\<close>

datatype event =
  Iteration nat
| Console_log string
| Set_needsUpdate
| Call_computeBoundingSphere
| Console_warn string

section \<open>The scan of the position array (lines 24 to 37)\<close>

text \<open>
  \<^verbatim>\<open>for (let i = 0; i < array.length; i++) {
    if (isNaN(array[i]) || !isFinite(array[i])) { array[i] = 0; needsFix = true; } }\<close>
  The loop variables are the index, the array and \<open>needsFix\<close>. The length of a typed
  array is fixed, so \<open>array[i] = 0\<close> with \<open>i < array.length\<close> is a list update.
\<close>

function scan_loop :: "nat \<Rightarrow> jsnum list \<Rightarrow> bool \<Rightarrow> event list \<Rightarrow> jsnum list \<times> bool \<times> event list" where
  "scan_loop i arr needsFix evs =
     (if i < length arr then
        (if isNaN (arr ! i) \<or> \<not> isFinite (arr ! i)
         then scan_loop (i + 1) (arr[i := Number 0]) True (evs @ [Iteration i])
         else scan_loop (i + 1) arr needsFix (evs @ [Iteration i]))
      else (arr, needsFix, evs))"
  by pat_completeness auto
termination
  by (relation "measure (\<lambda>(i, arr, needsFix, evs). length arr - i)") auto

declare scan_loop.simps [simp del]

text \<open>
  \<^verbatim>\<open>if (needsFix) { console.log("Fixed NaN values in geometry"); position.needsUpdate = true; }\<close>
\<close>

definition fix_position :: "buffer_attribute \<Rightarrow> event list \<Rightarrow> buffer_attribute \<times> event list" where
  "fix_position position evs =
     (case scan_loop 0 (array position) False evs of
        (arr, needsFix, evs') \<Rightarrow>
          if needsFix
          then (position\<lparr>array := arr, needsUpdate := True\<rparr>,
                evs' @ [Console_log ''Fixed NaN values in geometry'', Set_needsUpdate])
          else (position\<lparr>array := arr\<rparr>, evs'))"

section \<open>The bounding sphere (lines 39 to 62)\<close>

text \<open>
  \<open>geometry.computeBoundingSphere()\<close> is the rendering library's: it is a parameter here.
  Called on a geometry it either throws or returns, leaving a value (possibly none) in
  \<open>geometry.boundingSphere\<close>; it writes no other field of the geometry.
\<close>

datatype outcome = Throws | Returns "sphere option"

type_synonym library = "buffer_geometry \<Rightarrow> outcome"

text \<open>\<^verbatim>\<open>new THREE.Sphere(new THREE.Vector3(0, 0, 0), 5)\<close>\<close>

definition default_sphere :: sphere where
  "default_sphere = \<lparr>center = Vector3 (Number 0) (Number 0) (Number 0), radius = Number 5\<rparr>"

text \<open>
  \<^verbatim>\<open>try { geometry.computeBoundingSphere(); }
  catch (error) { console.warn(...); geometry.boundingSphere = new THREE.Sphere(...); }\<close>
\<close>

definition compute_sphere :: "library \<Rightarrow> buffer_geometry \<Rightarrow> event list \<Rightarrow> buffer_geometry \<times> event list" where
  "compute_sphere lib geom evs =
     (case lib geom of
        Returns s \<Rightarrow> (geom\<lparr>boundingSphere := s\<rparr>, evs @ [Call_computeBoundingSphere])
      | Throws \<Rightarrow>
          (geom\<lparr>boundingSphere := Some default_sphere\<rparr>,
           evs @ [Call_computeBoundingSphere,
                  Console_warn ''Failed to compute bounding sphere, setting manually'']))"

text \<open>
  \<^verbatim>\<open>if (!geometry.boundingSphere || isNaN(geometry.boundingSphere.radius) ||
      geometry.boundingSphere.radius === 0) { geometry.boundingSphere = new THREE.Sphere(...); }\<close>
\<close>

definition force_sphere :: "buffer_geometry \<Rightarrow> buffer_geometry" where
  "force_sphere geom =
     (case boundingSphere geom of
        None \<Rightarrow> geom\<lparr>boundingSphere := Some default_sphere\<rparr>
      | Some s \<Rightarrow>
          if isNaN (radius s) \<or> radius s = Number 0
          then geom\<lparr>boundingSphere := Some default_sphere\<rparr>
          else geom)"

section \<open>The cleaning pass on one geometry (lines 19 to 63)\<close>

text \<open>The geometry once its position attribute has been scanned: what the library is called on.\<close>

definition fix_geometry :: "buffer_geometry \<Rightarrow> buffer_attribute \<Rightarrow> event list \<Rightarrow> buffer_geometry \<times> event list" where
  "fix_geometry geom position evs =
     (case fix_position position evs of
        (position', evs') \<Rightarrow>
          (geom\<lparr>attributes := (attributes geom)(''position'' \<mapsto> position')\<rparr>, evs'))"

text \<open>\<^verbatim>\<open>const position = geometry.attributes.position; if (position) { ... }\<close>\<close>

definition clean_geometry :: "library \<Rightarrow> buffer_geometry \<Rightarrow> event list \<Rightarrow> buffer_geometry \<times> event list" where
  "clean_geometry lib geom evs =
     (case attributes geom ''position'' of
        None \<Rightarrow> (geom, evs)
      | Some position \<Rightarrow>
          (case fix_geometry geom position evs of
             (geom1, evs1) \<Rightarrow>
               (case compute_sphere lib geom1 evs1 of
                  (geom2, evs2) \<Rightarrow> (force_sphere geom2, evs2))))"

section \<open>The scene and its traversal (lines 13 to 69)\<close>

text \<open>
  Geometries and materials are objects that the nodes of a scene refer to, and several
  nodes may refer to the same one: the world maps each reference to the object's present
  value. A node is never assigned to by the pass, so a scene is a tree of node values.
  In this world a geometry holds the values of its attributes, so that an attribute and
  its array belong to one geometry; the next section has the attributes and the typed
  arrays as objects of their own, which several geometries and attributes can share.
\<close>

type_synonym ref = nat

datatype object3d =
  Object3D (isMesh: bool) (geometry: "ref option") (material: "ref option") (children: "object3d list")

record 'm world =
  geometries :: "ref \<Rightarrow> buffer_geometry"
  materials :: "ref \<Rightarrow> 'm"
  events :: "event list"

text \<open>\<^verbatim>\<open>(child) => { if (child.isMesh && child.geometry) { const geometry = child.geometry; ... } }\<close>\<close>

definition clean_child :: "library \<Rightarrow> object3d \<Rightarrow> 'm world \<Rightarrow> 'm world" where
  "clean_child lib child w =
     (if isMesh child then
        (case geometry child of
           None \<Rightarrow> w
         | Some r \<Rightarrow>
             (case clean_geometry lib (geometries w r) (events w) of
                (geom', evs') \<Rightarrow> w\<lparr>geometries := (geometries w)(r := geom'), events := evs'\<rparr>))
      else w)"

text \<open>
  \<open>object.traverse(callback)\<close> of the library calls the callback on the object, then
  traverses each child in order.
\<close>

fun traverse :: "(object3d \<Rightarrow> 's \<Rightarrow> 's) \<Rightarrow> object3d \<Rightarrow> 's \<Rightarrow> 's" where
  "traverse callback (Object3D m g mat cs) s =
     fold (traverse callback) cs (callback (Object3D m g mat cs) s)"

text \<open>
  \<open>scene.clone()\<close> of the library copies the nodes, recursively; a copied mesh refers to
  the same geometry and the same material as the mesh it was copied from.
\<close>

fun clone :: "object3d \<Rightarrow> object3d" where
  "clone (Object3D m g mat cs) = Object3D m g mat (map clone cs)"

text \<open>
  The effect of \<open>useCleanModel\<close>, run with the value of \<open>gltf.scene\<close> on the state
  \<open>cleanScene\<close> of the hook (initially \<open>null\<close>) and the world.
\<close>

definition useCleanModel_effect :: "library \<Rightarrow> object3d option \<Rightarrow> object3d option \<times> 'm world \<Rightarrow> object3d option \<times> 'm world" where
  "useCleanModel_effect lib gltf_scene st =
     (case gltf_scene of
        None \<Rightarrow> st
      | Some scene \<Rightarrow>
          (let cleanedScene = clone scene
           in (Some cleanedScene, traverse (clean_child lib) cleanedScene (snd st))))"

section \<open>The pass on shared objects (lines 17 to 65)\<close>

text \<open>
  In the library an attribute is an object that refers to a typed array, and a geometry
  refers to its attributes. Several attributes can refer to one typed array (the
  attributes of an interleaved buffer all have the whole buffer as their \<open>array\<close>), and
  several geometries can refer to one attribute (the loader keeps one attribute for each
  accessor of the file). The pass writes in place: \<open>array[i] = 0\<close> into the typed array
  that \<open>position.array\<close> refers to, \<open>needsUpdate\<close> into the attribute object,
  \<open>boundingSphere\<close> into the geometry object.
\<close>

record attribute_object =
  array_ref :: ref
  item_size :: nat
  needs_update :: bool

record geometry_object =
  attribute_refs :: "string \<rightharpoonup> ref"
  index_ref :: "ref option"
  bounding_sphere :: "sphere option"

record 'm heap =
  typed_arrays :: "ref \<Rightarrow> jsnum list"
  attribute_objects :: "ref \<Rightarrow> attribute_object"
  geometry_objects :: "ref \<Rightarrow> geometry_object"
  material_objects :: "ref \<Rightarrow> 'm"
  heap_events :: "event list"

text \<open>What a reader of the heap finds at an attribute and at a geometry.\<close>

definition read_attribute :: "'m heap \<Rightarrow> ref \<Rightarrow> buffer_attribute" where
  "read_attribute h a =
     \<lparr>array = typed_arrays h (array_ref (attribute_objects h a)),
      itemSize = item_size (attribute_objects h a),
      needsUpdate = needs_update (attribute_objects h a)\<rparr>"

definition read_geometry :: "'m heap \<Rightarrow> ref \<Rightarrow> buffer_geometry" where
  "read_geometry h r =
     \<lparr>attributes = (\<lambda>name. map_option (read_attribute h) (attribute_refs (geometry_objects h r) name)),
      index = map_option (read_attribute h) (index_ref (geometry_objects h r)),
      boundingSphere = bounding_sphere (geometry_objects h r)\<rparr>"

text \<open>Lines 23 to 37 on the attribute object \<open>a\<close> and the typed array it refers to.\<close>

definition scan_in_place :: "ref \<Rightarrow> 'm heap \<Rightarrow> 'm heap" where
  "scan_in_place a h =
     (case scan_loop 0 (typed_arrays h (array_ref (attribute_objects h a))) False (heap_events h) of
        (arr, needsFix, evs) \<Rightarrow>
          if needsFix
          then h\<lparr>typed_arrays := (typed_arrays h)(array_ref (attribute_objects h a) := arr),
                 attribute_objects :=
                   (attribute_objects h)(a := (attribute_objects h a)\<lparr>needs_update := True\<rparr>),
                 heap_events := evs @ [Console_log ''Fixed NaN values in geometry'', Set_needsUpdate]\<rparr>
          else h\<lparr>typed_arrays := (typed_arrays h)(array_ref (attribute_objects h a) := arr),
                 heap_events := evs\<rparr>)"

text \<open>
  Lines 40 to 62 on the geometry object \<open>r\<close>; the library is called on the geometry as
  the scan has left it.
\<close>

definition sphere_in_place :: "library \<Rightarrow> ref \<Rightarrow> 'm heap \<Rightarrow> 'm heap" where
  "sphere_in_place lib r h =
     (case compute_sphere lib (read_geometry h r) (heap_events h) of
        (geom, evs) \<Rightarrow>
          h\<lparr>geometry_objects :=
              (geometry_objects h)
                (r := (geometry_objects h r)\<lparr>bounding_sphere := boundingSphere (force_sphere geom)\<rparr>),
            heap_events := evs\<rparr>)"

text \<open>The callback of lines 17 to 65 and the effect of lines 13 to 69, on the heap.\<close>

definition clean_child_in_place :: "library \<Rightarrow> object3d \<Rightarrow> 'm heap \<Rightarrow> 'm heap" where
  "clean_child_in_place lib child h =
     (if isMesh child then
        (case geometry child of
           None \<Rightarrow> h
         | Some r \<Rightarrow>
             (case attribute_refs (geometry_objects h r) ''position'' of
                None \<Rightarrow> h
              | Some a \<Rightarrow> sphere_in_place lib r (scan_in_place a h)))
      else h)"

definition useCleanModel_effect_in_place :: "library \<Rightarrow> object3d option \<Rightarrow> object3d option \<times> 'm heap \<Rightarrow> object3d option \<times> 'm heap" where
  "useCleanModel_effect_in_place lib gltf_scene st =
     (case gltf_scene of
        None \<Rightarrow> st
      | Some scene \<Rightarrow>
          (let cleanedScene = clone scene
           in (Some cleanedScene, traverse (clean_child_in_place lib) cleanedScene (snd st))))"

section \<open>The components (lines 74 to 184)\<close>

text \<open>
  A rendered element: its tag, its props in the order written, its children. Numeric
  literals stand for the decimal number they are written as.
\<close>

datatype element = Element (tag: string) (props: "(string \<times> jsx_value) list") (kids: "element list")
and jsx_value =
  PNum rat
| PStr string
| PBool bool
| PVec "rat list"
| PObject object3d
| PRecord "(string \<times> jsx_value) list"
| PElement element

definition FallbackComputer :: "bool \<Rightarrow> element" where
  "FallbackComputer isMobile =
     Element ''group'' []
       [Element ''hemisphereLight'' [(''intensity'', PNum 1.5), (''groundColor'', PStr ''black'')] [],
        Element ''pointLight'' [(''intensity'', PNum 3)] [],
        Element ''spotLight''
          [(''position'', PVec [- 20, 50, 10]), (''angle'', PNum 0.18), (''penumbra'', PNum 0),
           (''intensity'', PNum 5), (''castShadow'', PBool True), (''shadow-mapSize'', PNum 3024)] [],
        Element ''mesh''
          [(''scale'', PNum (if isMobile then 0.3 else 0.6)),
           (''position'', PVec (if isMobile then [0, - 3, - 2.2] else [0, - 3.7, - 1.4])),
           (''rotation'', PVec [- 0.01, - 0.2, - 0.1])]
          [Element ''boxGeometry'' [(''args'', PVec [3, 2, 1])] [],
           Element ''meshStandardMaterial'' [(''color'', PStr ''#333'')] []],
        Element ''mesh''
          [(''scale'', PNum (if isMobile then 0.25 else 0.5)),
           (''position'', PVec (if isMobile then [0, - 1.5, - 2.5] else [0, - 2, - 2])),
           (''rotation'', PVec [- 0.01, - 0.2, - 0.1])]
          [Element ''boxGeometry'' [(''args'', PVec [2.5, 0.1, 1.5])] [],
           Element ''meshStandardMaterial'' [(''color'', PStr ''#666'')] []]]"

text \<open>
  \<open>Computers\<close>, given the value that \<open>useCleanModel\<close> returns:
  \<^verbatim>\<open>if (!cleanScene) { return <FallbackComputer isMobile={isMobile} />; }\<close>
\<close>

definition Computers :: "bool \<Rightarrow> object3d option \<Rightarrow> element" where
  "Computers isMobile cleanScene =
     (case cleanScene of
        None \<Rightarrow> FallbackComputer isMobile
      | Some scene \<Rightarrow>
          Element ''mesh'' []
            [Element ''hemisphereLight'' [(''intensity'', PNum 1.5), (''groundColor'', PStr ''black'')] [],
             Element ''pointLight'' [(''intensity'', PNum 3)] [],
             Element ''spotLight''
               [(''position'', PVec [- 20, 50, 10]), (''angle'', PNum 0.18), (''penumbra'', PNum 0),
                (''intensity'', PNum 5), (''castShadow'', PBool True), (''shadow-mapSize'', PNum 3024)] [],
             Element ''primitive''
               [(''object'', PObject scene),
                (''scale'', PNum (if isMobile then 0.3 else 0.6)),
                (''position'', PVec (if isMobile then [0, - 3, - 2.2] else [0, - 3.7, - 1.4])),
                (''rotation'', PVec [- 0.01, - 0.2, - 0.1])] []])"

text \<open>
  What a call that may throw does during a render. \<open>useGLTF(url)\<close> of the library
  throws a promise while the file is loading, which suspends the component up to the
  nearest \<open>Suspense\<close>; it throws the error when loading has failed; otherwise it returns
  the loaded model, here its \<open>scene\<close> (possibly none). Which of the three happens is a
  parameter.
\<close>

datatype 'a attempt = Suspend | Fail | Done 'a

text \<open>
  \<open>useCleanModel\<close> during a render (lines 10, 11 and 71): the state \<open>cleanScene\<close> is
  returned once \<open>useGLTF\<close> has returned.
\<close>

definition useCleanModel :: "object3d option attempt \<Rightarrow> object3d option \<Rightarrow> object3d option attempt" where
  "useCleanModel gltf cleanScene =
     (case gltf of Suspend \<Rightarrow> Suspend | Fail \<Rightarrow> Fail | Done scene \<Rightarrow> Done cleanScene)"

text \<open>A render of \<open>Computers\<close> (lines 74 to 101), with what \<open>useGLTF\<close> does in it.\<close>

definition Computers_render :: "bool \<Rightarrow> object3d option attempt \<Rightarrow> object3d option \<Rightarrow> element attempt" where
  "Computers_render isMobile gltf cleanScene =
     (case useCleanModel gltf cleanScene of
        Suspend \<Rightarrow> Suspend
      | Fail \<Rightarrow> Fail
      | Done scene \<Rightarrow> Done (Computers isMobile scene))"

text \<open>
  The state of \<open>ComputersCanvas\<close>: the flag \<open>isMobile\<close> (\<open>useState(false)\<close>) and whether
  \<open>handleMediaQueryChange\<close> is registered on the media query list. The browser's
  \<open>window.matchMedia(query).matches\<close> is a parameter.
\<close>

record canvas_state =
  isMobile :: bool
  listening :: bool

definition initial_canvas :: canvas_state where
  "initial_canvas = \<lparr>isMobile = False, listening = False\<rparr>"

text \<open>
  What happens to the component: its effect runs (on mount), the media query list fires
  a change event with \<open>event.matches\<close>, the cleanup of the effect runs (on unmount).
\<close>

datatype canvas_event = Effect_run | Media_change bool | Effect_cleanup

fun canvas_step :: "(string \<Rightarrow> bool) \<Rightarrow> canvas_event \<Rightarrow> canvas_state \<Rightarrow> canvas_state" where
  "canvas_step matchMedia Effect_run st =
     st\<lparr>isMobile := matchMedia ''(max-width: 500px)'', listening := True\<rparr>"
| "canvas_step matchMedia (Media_change matches) st =
     (if listening st then st\<lparr>isMobile := matches\<rparr> else st)"
| "canvas_step matchMedia Effect_cleanup st = st\<lparr>listening := False\<rparr>"

text \<open>\<open>Math.PI\<close> is the double nearest to \<open>\<pi>\<close>.\<close>

definition Math_PI :: rat where
  "Math_PI = 884279719003555 / 281474976710656"

text \<open>
  What \<open>ComputersCanvas\<close> renders in a state, with the state \<open>cleanScene\<close> of the
  \<open>Computers\<close> inside it. \<open>CanvasLoader\<close> is another file's component.
\<close>

definition ComputersCanvas :: "canvas_state \<Rightarrow> object3d option \<Rightarrow> element" where
  "ComputersCanvas st cleanScene =
     Element ''Canvas''
       [(''frameloop'', PStr ''demand''), (''shadows'', PBool True), (''dpr'', PVec [1, 2]),
        (''camera'', PRecord [(''position'', PVec [20, 3, 5]), (''fov'', PNum 25)]),
        (''gl'', PRecord [(''preserveDrawingBuffer'', PBool True)]),
        (''style'', PRecord
           [(''height'', PStr ''100%''), (''width'', PStr ''100%''), (''position'', PStr ''absolute''),
            (''top'', PNum 0), (''left'', PNum 0), (''zIndex'', PNum 0)])]
       [Element ''Suspense'' [(''fallback'', PElement (Element ''CanvasLoader'' [] []))]
          [Element ''OrbitControls''
             [(''enableZoom'', PBool False), (''maxPolarAngle'', PNum (Math_PI / 2)),
              (''minPolarAngle'', PNum (Math_PI / 2))] [],
           Computers (isMobile st) cleanScene],
        Element ''Preload'' [(''all'', PBool True)] []]"

text \<open>
  A \<open>Suspense\<close> element with a suspended child shows its \<open>fallback\<close> in place of its
  children.
\<close>

definition suspended :: "element \<Rightarrow> element" where
  "suspended e =
     (if tag e = ''Suspense''
      then (case map_of (props e) ''fallback'' of
              Some (PElement f) \<Rightarrow> Element (tag e) (props e) [f]
            | _ \<Rightarrow> e)
      else e)"

text \<open>
  What \<open>ComputersCanvas\<close> shows (lines 156 to 183): the \<open>Suspense\<close> of line 172 takes
  a suspension of \<open>Computers\<close>; nothing in the file takes an error.
\<close>

definition ComputersCanvas_render :: "canvas_state \<Rightarrow> object3d option attempt \<Rightarrow> object3d option \<Rightarrow> element attempt" where
  "ComputersCanvas_render st gltf cleanScene =
     (case Computers_render (isMobile st) gltf cleanScene of
        Suspend \<Rightarrow>
          Done (Element (tag (ComputersCanvas st cleanScene)) (props (ComputersCanvas st cleanScene))
                  (map suspended (kids (ComputersCanvas st cleanScene))))
      | Fail \<Rightarrow> Fail
      | Done e \<Rightarrow> Done (ComputersCanvas st cleanScene))"

section \<open>Notions used to state the properties\<close>

text \<open>What the scan does to one element, and the elements it replaces.\<close>

definition replaced :: "jsnum \<Rightarrow> bool" where
  "replaced v = (isNaN v \<or> \<not> isFinite v)"

definition sanitize :: "jsnum \<Rightarrow> jsnum" where
  "sanitize v = (if replaced v then Number 0 else v)"

text \<open>The nodes of a scene, in the order in which the traversal visits them.\<close>

fun nodes :: "object3d \<Rightarrow> object3d list" where
  "nodes (Object3D m g mat cs) = Object3D m g mat cs # concat (map nodes cs)"

text \<open>The geometries that the callback works on: those of the meshes, in that order.\<close>

definition mesh_geometry :: "object3d \<Rightarrow> ref list" where
  "mesh_geometry child = (if isMesh child then (case geometry child of None \<Rightarrow> [] | Some r \<Rightarrow> [r]) else [])"

definition mesh_geometries :: "object3d \<Rightarrow> ref list" where
  "mesh_geometries scene = concat (map mesh_geometry (nodes scene))"

text \<open>The iterations of the loop and the calls of the library among the events.\<close>

fun is_work :: "event \<Rightarrow> bool" where
  "is_work (Iteration i) = True"
| "is_work Call_computeBoundingSphere = True"
| "is_work _ = False"

definition work :: "event list \<Rightarrow> event list" where
  "work evs = filter is_work evs"

text \<open>One scan of the array, index after index, then one call of the library.\<close>

definition one_pass :: "buffer_geometry \<Rightarrow> event list" where
  "one_pass geom =
     (case attributes geom ''position'' of
        None \<Rightarrow> []
      | Some position \<Rightarrow> map Iteration [0..<length (array position)] @ [Call_computeBoundingSphere])"

text \<open>The elements of a rendered tree, and those with a given tag.\<close>

fun subelements :: "element \<Rightarrow> element list" where
  "subelements (Element t ps ks) = Element t ps ks # concat (map subelements ks)"

definition tagged :: "string \<Rightarrow> element \<Rightarrow> element list" where
  "tagged t e = filter (\<lambda>k. tag k = t) (subelements e)"

text \<open>The position attribute after the scan and the assignment of \<open>needsUpdate\<close>.\<close>

definition cleaned_position :: "buffer_attribute \<Rightarrow> buffer_attribute" where
  "cleaned_position p =
     (if \<exists>v \<in> set (array p). replaced v
      then p\<lparr>array := map sanitize (array p), needsUpdate := True\<rparr> else p)"

text \<open>The geometry after lines 24 to 37: what the library is called on.\<close>

definition scanned :: "buffer_geometry \<Rightarrow> buffer_geometry" where
  "scanned geom =
     (case attributes geom ''position'' of
        None \<Rightarrow> geom
      | Some position \<Rightarrow> fst (fix_geometry geom position []))"

text \<open>The sphere that lines 40 to 62 leave, given what the call of the library did.\<close>

definition forced :: "outcome \<Rightarrow> sphere" where
  "forced out =
     (case out of
        Throws \<Rightarrow> default_sphere
      | Returns None \<Rightarrow> default_sphere
      | Returns (Some s) \<Rightarrow> if isNaN (radius s) \<or> radius s = Number 0 then default_sphere else s)"

text \<open>The array of the position attribute, if there is one.\<close>

definition position_array :: "buffer_geometry \<Rightarrow> jsnum list option" where
  "position_array geom = map_option array (attributes geom ''position'')"

text \<open>The fields of a geometry that the pass leaves as they are.\<close>

definition kept :: "buffer_geometry \<Rightarrow> buffer_attribute option \<times> (string \<rightharpoonup> buffer_attribute) \<times> nat option" where
  "kept geom =
     (index geom, (attributes geom)(''position'' := None),
      map_option itemSize (attributes geom ''position''))"

text \<open>A bounding sphere is there, and its radius is neither NaN nor 0.\<close>

definition valid_sphere :: "buffer_geometry \<Rightarrow> bool" where
  "valid_sphere geom =
     (case boundingSphere geom of
        None \<Rightarrow> False
      | Some s \<Rightarrow> radius s \<noteq> NaN \<and> radius s \<noteq> Number 0)"

text \<open>The elements shown, none when the render suspends or fails.\<close>

definition shown :: "element attempt \<Rightarrow> element list" where
  "shown r = (case r of Done e \<Rightarrow> subelements e | _ \<Rightarrow> [])"

text \<open>
  The attribute objects and the typed arrays that the pass writes to: the position
  attributes of the given geometries, and the arrays that those refer to.
\<close>

definition position_attribute :: "'m heap \<Rightarrow> ref \<Rightarrow> ref list" where
  "position_attribute h r =
     (case attribute_refs (geometry_objects h r) ''position'' of None \<Rightarrow> [] | Some a \<Rightarrow> [a])"

definition written_attributes :: "'m heap \<Rightarrow> ref list \<Rightarrow> ref list" where
  "written_attributes h rs = concat (map (position_attribute h) rs)"

definition written_arrays :: "'m heap \<Rightarrow> ref list \<Rightarrow> ref list" where
  "written_arrays h rs = map (\<lambda>a. array_ref (attribute_objects h a)) (written_attributes h rs)"

text \<open>The references held by the objects: which attribute is whose, which array is whose.\<close>

definition links :: "'m heap \<Rightarrow> (ref \<Rightarrow> (string \<rightharpoonup> ref) \<times> ref option) \<times> (ref \<Rightarrow> ref \<times> nat)" where
  "links h =
     (\<lambda>r. (attribute_refs (geometry_objects h r), index_ref (geometry_objects h r)),
      \<lambda>a. (array_ref (attribute_objects h a), item_size (attribute_objects h a)))"

text \<open>The heap as a world: every geometry with the values that its attributes have.\<close>

definition view :: "'m heap \<Rightarrow> 'm world" where
  "view h = \<lparr>geometries = read_geometry h, materials = material_objects h, events = heap_events h\<rparr>"

text \<open>
  The position attribute of a geometry, and the typed array of that attribute, are its
  own: no other attribute of this or another geometry, and no index, is that attribute
  object or refers to that array.
\<close>

definition owned :: "'m heap \<Rightarrow> ref \<Rightarrow> bool" where
  "owned h r =
     (case attribute_refs (geometry_objects h r) ''position'' of
        None \<Rightarrow> True
      | Some a \<Rightarrow>
          (\<forall>r' name a'.
             attribute_refs (geometry_objects h r') name = Some a' \<and> (r', name) \<noteq> (r, ''position'') \<longrightarrow>
             a' \<noteq> a \<and> array_ref (attribute_objects h a') \<noteq> array_ref (attribute_objects h a)) \<and>
          (\<forall>r' a'.
             index_ref (geometry_objects h r') = Some a' \<longrightarrow>
             a' \<noteq> a \<and> array_ref (attribute_objects h a') \<noteq> array_ref (attribute_objects h a)))"

section \<open>Example inputs\<close>

text \<open>
  Two vertices with NaN and infinite coordinates, in a geometry that two meshes of a
  scene share; a group and a node that is no mesh; a library that returns a sphere of
  radius 2.
\<close>

definition example_position :: buffer_attribute where
  "example_position =
     \<lparr>array = [Number 1, NaN, Infinity, NegInfinity, Number (- 2.5), Number 0],
      itemSize = 3, needsUpdate = False\<rparr>"

definition example_normal :: buffer_attribute where
  "example_normal = \<lparr>array = [NaN, Number 0, Number 1, Number 0, Number 0, Number 1],
      itemSize = 3, needsUpdate = False\<rparr>"

definition example_geometry :: buffer_geometry where
  "example_geometry =
     \<lparr>attributes = [''position'' \<mapsto> example_position, ''normal'' \<mapsto> example_normal],
      index = None, boundingSphere = None\<rparr>"

definition empty_geometry :: buffer_geometry where
  "empty_geometry = \<lparr>attributes = Map.empty, index = None, boundingSphere = None\<rparr>"

definition example_library :: library where
  "example_library geom =
     Returns (Some \<lparr>center = Vector3 (Number 0) (Number 0) (Number 0), radius = Number 2\<rparr>)"

definition example_scene :: object3d where
  "example_scene =
     Object3D False None None
       [Object3D True (Some 0) (Some 0) [],
        Object3D False (Some 1) None [],
        Object3D True (Some 0) (Some 1) []]"

definition example_world :: "string world" where
  "example_world =
     \<lparr>geometries = (\<lambda>r. if r = 0 then example_geometry else empty_geometry),
      materials = (\<lambda>r. ''#333''), events = []\<rparr>"

text \<open>
  Two vertices at the same point, and the sphere of radius 0 around it.
\<close>

definition point_position :: buffer_attribute where
  "point_position =
     \<lparr>array = [Number 1, Number 2, Number 3, Number 1, Number 2, Number 3],
      itemSize = 3, needsUpdate = False\<rparr>"

definition point_geometry :: buffer_geometry where
  "point_geometry =
     \<lparr>attributes = [''position'' \<mapsto> point_position], index = None, boundingSphere = None\<rparr>"

definition point_sphere :: sphere where
  "point_sphere = \<lparr>center = Vector3 (Number 1) (Number 2) (Number 3), radius = Number 0\<rparr>"

text \<open>A browser whose viewport is at most 500 pixels wide, asked for that query.\<close>

definition narrow_viewport :: "string \<Rightarrow> bool" where
  "narrow_viewport query = (query = ''(max-width: 500px)'')"

text \<open>
  A heap with an interleaved buffer: the position and the normal of geometry 0 refer to
  one typed array, whose fourth element, a normal, is NaN; the uv has an array of its
  own. Geometry 1 belongs to a node that is no mesh and refers to the same position
  attribute object.
\<close>

definition interleaved_heap :: "string heap" where
  "interleaved_heap =
     \<lparr>typed_arrays =
        (\<lambda>b. if b = 0 then [Number 1, Number 2, Number 3, NaN, Number 0, Number 1]
             else [NaN, Number 0]),
      attribute_objects =
        (\<lambda>a. if a = 0 then \<lparr>array_ref = 0, item_size = 3, needs_update = False\<rparr>
             else if a = 1 then \<lparr>array_ref = 0, item_size = 3, needs_update = False\<rparr>
             else \<lparr>array_ref = 1, item_size = 2, needs_update = False\<rparr>),
      geometry_objects =
        (\<lambda>r. if r = 0
             then \<lparr>attribute_refs = [''position'' \<mapsto> 0, ''normal'' \<mapsto> 1, ''uv'' \<mapsto> 2],
                   index_ref = None, bounding_sphere = None\<rparr>
             else \<lparr>attribute_refs = [''position'' \<mapsto> 0], index_ref = None, bounding_sphere = None\<rparr>),
      material_objects = (\<lambda>r. ''#333''),
      heap_events = []\<rparr>"

definition interleaved_scene :: object3d where
  "interleaved_scene =
     Object3D False None None
       [Object3D True (Some 0) (Some 0) [],
        Object3D False (Some 1) None []]"

text \<open>A heap in which every attribute has a typed array of its own.\<close>

definition separate_heap :: "string heap" where
  "separate_heap =
     \<lparr>typed_arrays =
        (\<lambda>b. if b = 0 then [Number 1, NaN, Number 3] else [NaN, Number 0, Number 1]),
      attribute_objects = (\<lambda>a. \<lparr>array_ref = a, item_size = 3, needs_update = False\<rparr>),
      geometry_objects =
        (\<lambda>r. if r = 0
             then \<lparr>attribute_refs = [''position'' \<mapsto> 0, ''normal'' \<mapsto> 1],
                   index_ref = None, bounding_sphere = None\<rparr>
             else \<lparr>attribute_refs = Map.empty, index_ref = None, bounding_sphere = None\<rparr>),
      material_objects = (\<lambda>r. ''#333''),
      heap_events = []\<rparr>"

section \<open>The scan, characterised\<close>

lemma replaced_iff: "replaced v \<longleftrightarrow> \<not> isFinite v"
  by (cases v) (simp_all add: replaced_def)

lemma sanitize_finite: "isFinite (sanitize v)"
  by (cases v) (simp_all add: sanitize_def replaced_def)

lemma sanitize_id: "isFinite v \<Longrightarrow> sanitize v = v"
  by (simp add: sanitize_def replaced_iff)

lemma scan_loop_eq:
  "i \<le> length arr \<Longrightarrow>
   scan_loop i arr needsFix evs =
     (take i arr @ map sanitize (drop i arr),
      needsFix \<or> (\<exists>v \<in> set (drop i arr). replaced v),
      evs @ map Iteration [i..<length arr])"
proof (induction i arr needsFix evs rule: scan_loop.induct)
  case (1 i arr needsFix evs)
  show ?case
  proof (cases "i < length arr")
    case False
    with "1.prems" have "i = length arr" by simp
    then show ?thesis by (simp add: scan_loop.simps)
  next
    case True
    have split_drop: "drop i arr = arr ! i # drop (Suc i) arr"
      using True by (simp add: Cons_nth_drop_Suc)
    have split_take: "take (Suc i) arr = take i arr @ [arr ! i]"
      using True by (simp add: take_Suc_conv_app_nth)
    have upt: "[i..<length arr] = i # [Suc i..<length arr]"
      using True by (simp add: upt_conv_Cons)
    show ?thesis
    proof (cases "isNaN (arr ! i) \<or> \<not> isFinite (arr ! i)")
      case bad: True
      have "scan_loop i arr needsFix evs =
            scan_loop (i + 1) (arr[i := Number 0]) True (evs @ [Iteration i])"
        using True bad by (subst scan_loop.simps) simp
      also have "\<dots> = (take (i + 1) (arr[i := Number 0]) @ map sanitize (drop (i + 1) (arr[i := Number 0])),
                      True \<or> (\<exists>v \<in> set (drop (i + 1) (arr[i := Number 0])). replaced v),
                      (evs @ [Iteration i]) @ map Iteration [i + 1..<length (arr[i := Number 0])])"
        using True bad by (intro "1.IH"(1)) simp_all
      also have "\<dots> = (take i arr @ map sanitize (drop i arr),
                      needsFix \<or> (\<exists>v \<in> set (drop i arr). replaced v),
                      evs @ map Iteration [i..<length arr])"
        using True bad
        by (simp add: split_drop upt take_Suc_conv_app_nth sanitize_def replaced_def)
      finally show ?thesis .
    next
      case good: False
      have "scan_loop i arr needsFix evs =
            scan_loop (i + 1) arr needsFix (evs @ [Iteration i])"
        using True good by (subst scan_loop.simps) simp
      also have "\<dots> = (take (i + 1) arr @ map sanitize (drop (i + 1) arr),
                      needsFix \<or> (\<exists>v \<in> set (drop (i + 1) arr). replaced v),
                      (evs @ [Iteration i]) @ map Iteration [i + 1..<length arr])"
        using True good by (intro "1.IH"(2)) simp_all
      also have "\<dots> = (take i arr @ map sanitize (drop i arr),
                      needsFix \<or> (\<exists>v \<in> set (drop i arr). replaced v),
                      evs @ map Iteration [i..<length arr])"
        using True good
        by (simp add: split_drop split_take upt sanitize_def replaced_def)
      finally show ?thesis .
    qed
  qed
qed

lemma scan_loop_0:
  "scan_loop 0 arr False evs =
     (map sanitize arr, (\<exists>v \<in> set arr. replaced v), evs @ map Iteration [0..<length arr])"
  using scan_loop_eq [of 0 arr False evs] by simp

section \<open>The pass on one geometry, characterised\<close>

lemma map_sanitize_id: "\<forall>v \<in> set arr. \<not> replaced v \<Longrightarrow> map sanitize arr = arr"
  by (induction arr) (simp_all add: sanitize_def)

lemma sanitize_idem: "sanitize (sanitize v) = sanitize v"
  by (simp add: sanitize_id sanitize_finite)

lemma not_replaced_sanitize: "\<not> replaced (sanitize v)"
  by (simp add: replaced_iff sanitize_finite)

lemma fix_position_eq:
  "fix_position p evs =
     (cleaned_position p,
      evs @ map Iteration [0..<length (array p)] @
        (if \<exists>v \<in> set (array p). replaced v
         then [Console_log ''Fixed NaN values in geometry'', Set_needsUpdate] else []))"
proof (cases "\<exists>v \<in> set (array p). replaced v")
  case True
  then show ?thesis
    by (simp add: fix_position_def scan_loop_0 cleaned_position_def)
next
  case False
  then have "map sanitize (array p) = array p"
    by (intro map_sanitize_id) simp
  with False show ?thesis
    by (simp add: fix_position_def scan_loop_0 cleaned_position_def)
qed

lemma fix_geometry_eq:
  "fix_geometry geom p evs =
     (geom\<lparr>attributes := (attributes geom)(''position'' \<mapsto> cleaned_position p)\<rparr>,
      snd (fix_position p evs))"
  by (simp add: fix_geometry_def fix_position_eq)

lemma scanned_Some:
  "attributes geom ''position'' = Some p \<Longrightarrow>
   scanned geom = geom\<lparr>attributes := (attributes geom)(''position'' \<mapsto> cleaned_position p)\<rparr>"
  by (simp add: scanned_def fix_geometry_eq)

lemma fst_fix_geometry:
  "attributes geom ''position'' = Some p \<Longrightarrow> fst (fix_geometry geom p evs) = scanned geom"
  by (simp add: scanned_Some fix_geometry_eq)

lemma force_compute:
  "force_sphere (fst (compute_sphere lib geom evs)) = geom\<lparr>boundingSphere := Some (forced (lib geom))\<rparr>"
  by (simp add: force_sphere_def compute_sphere_def forced_def default_sphere_def
      split: outcome.splits option.splits)

lemma clean_geometry_Some:
  assumes "attributes geom ''position'' = Some p"
  shows "fst (clean_geometry lib geom evs) = (scanned geom)\<lparr>boundingSphere := Some (forced (lib (scanned geom)))\<rparr>"
proof -
  obtain g1 e1 where f: "fix_geometry geom p evs = (g1, e1)" by force
  then have g1: "g1 = scanned geom" using fst_fix_geometry [OF assms, of evs] by simp
  obtain g2 e2 where c: "compute_sphere lib g1 e1 = (g2, e2)" by force
  have "fst (clean_geometry lib geom evs) = force_sphere g2"
    by (simp add: clean_geometry_def assms f c)
  also have "\<dots> = force_sphere (fst (compute_sphere lib g1 e1))" by (simp add: c)
  finally show ?thesis by (simp add: force_compute g1)
qed

lemma clean_geometry_None:
  "attributes geom ''position'' = None \<Longrightarrow> clean_geometry lib geom evs = (geom, evs)"
  by (simp add: clean_geometry_def)

lemma snd_compute_sphere:
  "snd (compute_sphere lib geom evs) =
     evs @ Call_computeBoundingSphere #
       (case lib geom of Throws \<Rightarrow> [Console_warn ''Failed to compute bounding sphere, setting manually''] | Returns s \<Rightarrow> [])"
  by (simp add: compute_sphere_def split: outcome.splits)

lemma clean_geometry_events:
  assumes "attributes geom ''position'' = Some p"
  shows "snd (clean_geometry lib geom evs) =
     evs @ map Iteration [0..<length (array p)] @
       (if \<exists>v \<in> set (array p). replaced v
        then [Console_log ''Fixed NaN values in geometry'', Set_needsUpdate] else []) @
       Call_computeBoundingSphere #
       (case lib (scanned geom) of
          Throws \<Rightarrow> [Console_warn ''Failed to compute bounding sphere, setting manually'']
        | Returns s \<Rightarrow> [])"
proof -
  obtain g1 e1 where f: "fix_geometry geom p evs = (g1, e1)" by force
  then have g1: "g1 = scanned geom" using fst_fix_geometry [OF assms, of evs] by simp
  have e1: "e1 = snd (fix_position p evs)" using f by (simp add: fix_geometry_eq)
  obtain g2 e2 where c: "compute_sphere lib g1 e1 = (g2, e2)" by force
  have "snd (clean_geometry lib geom evs) = e2"
    by (simp add: clean_geometry_def assms f c)
  also have "\<dots> = snd (compute_sphere lib g1 e1)" by (simp add: c)
  finally show ?thesis by (simp add: snd_compute_sphere g1 e1 fix_position_eq)
qed

lemma cleaned_position_array: "array (cleaned_position p) = map sanitize (array p)"
  by (simp add: cleaned_position_def map_sanitize_id)

lemma cleaned_position_flag:
  "needsUpdate (cleaned_position p) = (if \<exists>v \<in> set (array p). replaced v then True else needsUpdate p)"
  by (simp add: cleaned_position_def)

lemma clean_geometry_position:
  assumes "attributes geom ''position'' = Some p"
  shows "attributes (fst (clean_geometry lib geom evs)) ''position'' = Some (cleaned_position p)"
  by (simp add: clean_geometry_Some [OF assms] scanned_Some [OF assms])

lemma clean_geometry_sphere:
  assumes "attributes geom ''position'' = Some p"
  shows "boundingSphere (fst (clean_geometry lib geom evs)) = Some (forced (lib (scanned geom)))"
  by (simp add: clean_geometry_Some [OF assms])

lemma forced_radius: "radius (forced out) \<noteq> NaN \<and> radius (forced out) \<noteq> Number 0"
  by (cases "radius (the (case out of Returns s \<Rightarrow> s | Throws \<Rightarrow> None))")
     (auto simp: forced_def default_sphere_def split: outcome.splits option.splits)

lemma replaced_cases: "replaced v \<longleftrightarrow> v = NaN \<or> v = Infinity \<or> v = NegInfinity"
  by (cases v) (simp_all add: replaced_def)

section \<open>The traversal, characterised\<close>

lemma fold_children:
  "(\<And>c u. c \<in> set cs \<Longrightarrow> traverse f c u = fold f (nodes c) u) \<Longrightarrow>
   fold (traverse f) cs t = fold f (concat (map nodes cs)) t"
  by (induction cs arbitrary: t) simp_all

lemma traverse_fold: "traverse f n s = fold f (nodes n) s"
proof (induction n arbitrary: s)
  case (Object3D m g mat cs)
  show ?case
    by (simp add: fold_children [of cs f, OF Object3D.IH])
qed

lemma clone_id: "clone n = n"
proof (induction n)
  case (Object3D m g mat cs)
  have "map clone cs = cs"
    by (rule map_idI) (rule Object3D.IH)
  then show ?case by simp
qed

lemma effect_Some:
  "useCleanModel_effect lib (Some scene) st =
     (Some scene, fold (clean_child lib) (nodes scene) (snd st))"
  by (simp add: useCleanModel_effect_def clone_id traverse_fold)

lemma effect_None: "useCleanModel_effect lib None st = st"
  by (simp add: useCleanModel_effect_def)

lemma mesh_geometry_cases:
  "r \<in> set (mesh_geometry c) \<longleftrightarrow> isMesh c \<and> geometry c = Some r"
  unfolding mesh_geometry_def by (cases "isMesh c"; cases "geometry c") auto

lemma clean_child_geometries:
  "geometries (clean_child lib c w) r =
     (if r \<in> set (mesh_geometry c) then fst (clean_geometry lib (geometries w r) (events w))
      else geometries w r)"
proof (cases "isMesh c")
  case False
  then show ?thesis by (simp add: clean_child_def mesh_geometry_def)
next
  case True
  show ?thesis
  proof (cases "geometry c")
    case None
    with True show ?thesis by (simp add: clean_child_def mesh_geometry_def)
  next
    case (Some r')
    obtain g' e' where "clean_geometry lib (geometries w r') (events w) = (g', e')" by force
    with True Some show ?thesis by (simp add: clean_child_def mesh_geometry_def)
  qed
qed

lemma clean_child_materials: "materials (clean_child lib c w) = materials w"
  by (simp add: clean_child_def split: option.splits prod.splits)

lemma clean_child_events:
  "events (clean_child lib c w) =
     (case mesh_geometry c of [] \<Rightarrow> events w | r # rs \<Rightarrow> snd (clean_geometry lib (geometries w r) (events w)))"
  by (simp add: clean_child_def mesh_geometry_def split: option.splits prod.splits)

lemma clean_child_other: "\<not> isMesh c \<Longrightarrow> clean_child lib c w = w"
  by (simp add: clean_child_def)

lemma position_array_clean:
  "position_array (fst (clean_geometry lib geom evs)) = map_option (map sanitize) (position_array geom)"
proof (cases "attributes geom ''position''")
  case None
  then show ?thesis by (simp add: position_array_def clean_geometry_None)
next
  case (Some p)
  then show ?thesis
    by (simp add: position_array_def clean_geometry_position [OF Some] cleaned_position_array)
qed

lemma map_sanitize_idem: "map sanitize (map sanitize arr) = map sanitize arr"
  by (simp add: sanitize_idem)

lemma fold_position_array:
  "position_array (geometries (fold (clean_child lib) cs w) r) =
     (if r \<in> set (concat (map mesh_geometry cs))
      then map_option (map sanitize) (position_array (geometries w r))
      else position_array (geometries w r))"
proof (induction cs arbitrary: w)
  case Nil
  show ?case by simp
next
  case (Cons c cs)
  show ?case
    by (simp add: Cons.IH clean_child_geometries position_array_clean option.map_comp comp_def
        sanitize_idem)
qed

lemma fold_materials: "materials (fold (clean_child lib) cs w) = materials w"
  by (induction cs arbitrary: w) (simp_all add: clean_child_materials)

lemma fold_untouched:
  "r \<notin> set (concat (map mesh_geometry cs)) \<Longrightarrow>
   geometries (fold (clean_child lib) cs w) r = geometries w r"
  by (induction cs arbitrary: w) (simp_all add: clean_child_geometries)

lemma work_append: "work (xs @ ys) = work xs @ work ys"
  by (simp add: work_def)

lemma work_iterations: "work (map Iteration ns) = map Iteration ns"
  by (induction ns) (simp_all add: work_def)

lemma work_clean_geometry:
  "work (snd (clean_geometry lib geom evs)) = work evs @ one_pass geom"
proof (cases "attributes geom ''position''")
  case None
  then show ?thesis by (simp add: clean_geometry_None one_pass_def)
next
  case (Some p)
  have tail: "work (Call_computeBoundingSphere # (case lib (scanned geom) of
          Throws \<Rightarrow> [Console_warn ''Failed to compute bounding sphere, setting manually'']
        | Returns s \<Rightarrow> [])) = [Call_computeBoundingSphere]"
    by (simp add: work_def split: outcome.splits)
  have logged: "work (if \<exists>v \<in> set (array p). replaced v
        then [Console_log ''Fixed NaN values in geometry'', Set_needsUpdate] else []) = []"
    by (simp add: work_def)
  show ?thesis
    unfolding clean_geometry_events [OF Some] work_append work_iterations tail logged
    by (simp add: one_pass_def Some)
qed

lemma one_pass_position_array:
  "one_pass geom =
     (case position_array geom of None \<Rightarrow> []
      | Some a \<Rightarrow> map Iteration [0..<length a] @ [Call_computeBoundingSphere])"
  by (simp add: one_pass_def position_array_def split: option.splits)

lemma one_pass_clean_child:
  "one_pass (geometries (clean_child lib c w) r) = one_pass (geometries w r)"
  by (simp add: one_pass_position_array clean_child_geometries position_array_clean
      split: option.splits)

lemma work_clean_child:
  "work (events (clean_child lib c w)) =
     work (events w) @ concat (map (\<lambda>r. one_pass (geometries w r)) (mesh_geometry c))"
proof (cases "mesh_geometry c")
  case Nil
  then show ?thesis by (simp add: clean_child_events)
next
  case (Cons r rs)
  then have "rs = []"
    by (simp add: mesh_geometry_def split: if_splits option.splits)
  with Cons show ?thesis
    by (simp add: clean_child_events work_clean_geometry)
qed

lemma work_fold:
  "work (events (fold (clean_child lib) cs w)) =
     work (events w) @
     concat (map (\<lambda>r. one_pass (geometries w r)) (concat (map mesh_geometry cs)))"
proof (induction cs arbitrary: w)
  case Nil
  show ?case by simp
next
  case (Cons c cs)
  show ?case
    by (simp add: Cons.IH work_clean_child one_pass_clean_child)
qed

lemma position_array_Some:
  "position_array geom = Some a \<longleftrightarrow> (\<exists>p. attributes geom ''position'' = Some p \<and> array p = a)"
  by (auto simp: position_array_def)

lemma mesh_geometries_nodes: "mesh_geometries scene = concat (map mesh_geometry (nodes scene))"
  by (simp add: mesh_geometries_def)

lemma scanned_finite:
  assumes "attributes geom ''position'' = Some p" and "\<forall>v \<in> set (array p). isFinite v"
  shows "scanned geom = geom"
proof -
  have "cleaned_position p = p"
    using assms(2) by (simp add: cleaned_position_def replaced_iff)
  moreover have "(attributes geom)(''position'' \<mapsto> p) = attributes geom"
    using assms(1) by (rule map_upd_triv)
  ultimately show ?thesis by (simp add: scanned_Some [OF assms(1)])
qed

lemma kept_clean_geometry: "kept (fst (clean_geometry lib geom evs)) = kept geom"
proof (cases "attributes geom ''position''")
  case None
  then show ?thesis by (simp add: clean_geometry_None)
next
  case (Some p)
  have "itemSize (cleaned_position p) = itemSize p"
    by (simp add: cleaned_position_def)
  then show ?thesis
    by (simp add: kept_def clean_geometry_Some [OF Some] scanned_Some [OF Some] Some)
qed

lemma kept_clean_child: "kept (geometries (clean_child lib c w) r) = kept (geometries w r)"
  by (simp add: clean_child_geometries kept_clean_geometry)

lemma kept_fold: "kept (geometries (fold (clean_child lib) cs w) r) = kept (geometries w r)"
  by (induction cs arbitrary: w) (simp_all add: kept_clean_child)

lemma kept_eq:
  "kept a = kept b \<longleftrightarrow>
     index a = index b \<and>
     (\<forall>name. name \<noteq> ''position'' \<longrightarrow> attributes a name = attributes b name) \<and>
     map_option itemSize (attributes a ''position'') = map_option itemSize (attributes b ''position'')"
proof -
  have "(attributes a)(''position'' := None) = (attributes b)(''position'' := None) \<longleftrightarrow>
        (\<forall>name. name \<noteq> ''position'' \<longrightarrow> attributes a name = attributes b name)"
    by (auto simp: fun_eq_iff)
  then show ?thesis by (simp add: kept_def)
qed

lemma count_list_filter: "P e \<Longrightarrow> count_list (filter P xs) e = count_list xs e"
  by (induction xs) auto

lemma valid_sphere_clean:
  "attributes geom ''position'' = Some p \<Longrightarrow> valid_sphere (fst (clean_geometry lib geom evs))"
  using forced_radius [of "lib (scanned geom)"]
  by (simp add: valid_sphere_def clean_geometry_sphere)

lemma has_position_clean_child:
  "attributes (geometries (clean_child lib c w) r) ''position'' = None \<longleftrightarrow>
   attributes (geometries w r) ''position'' = None"
proof -
  have "position_array (geometries (clean_child lib c w) r) = None \<longleftrightarrow>
        position_array (geometries w r) = None"
    by (simp add: clean_child_geometries position_array_clean)
  then show ?thesis by (simp add: position_array_def)
qed

lemma valid_sphere_fold:
  "attributes (geometries w r) ''position'' \<noteq> None \<Longrightarrow>
   r \<in> set (concat (map mesh_geometry cs)) \<or> valid_sphere (geometries w r) \<Longrightarrow>
   valid_sphere (geometries (fold (clean_child lib) cs w) r)"
proof (induction cs arbitrary: w)
  case Nil
  then show ?case by simp
next
  case (Cons c cs)
  have pos: "attributes (geometries (clean_child lib c w) r) ''position'' \<noteq> None"
    using Cons.prems(1) by (simp add: has_position_clean_child)
  have "r \<in> set (concat (map mesh_geometry cs)) \<or> valid_sphere (geometries (clean_child lib c w) r)"
  proof (cases "r \<in> set (mesh_geometry c)")
    case True
    then show ?thesis
      using Cons.prems(1) by (auto simp: clean_child_geometries valid_sphere_clean)
  next
    case False
    then show ?thesis
      using Cons.prems(2) by (auto simp: clean_child_geometries)
  qed
  with pos show ?case
    using Cons.IH [of "clean_child lib c w"] by simp
qed

section \<open>The pass on shared objects, characterised\<close>

lemma scan_in_place_eq:
  "scan_in_place a h =
     h\<lparr>typed_arrays :=
         (typed_arrays h)(array_ref (attribute_objects h a) :=
            map sanitize (typed_arrays h (array_ref (attribute_objects h a)))),
       attribute_objects :=
         (if \<exists>v \<in> set (typed_arrays h (array_ref (attribute_objects h a))). replaced v
          then (attribute_objects h)(a := (attribute_objects h a)\<lparr>needs_update := True\<rparr>)
          else attribute_objects h),
       heap_events :=
         heap_events h @
         map Iteration [0..<length (typed_arrays h (array_ref (attribute_objects h a)))] @
         (if \<exists>v \<in> set (typed_arrays h (array_ref (attribute_objects h a))). replaced v
          then [Console_log ''Fixed NaN values in geometry'', Set_needsUpdate] else [])\<rparr>"
  by (simp add: scan_in_place_def scan_loop_0)

lemma scan_in_place_fields:
  "material_objects (scan_in_place a h) = material_objects h"
  "geometry_objects (scan_in_place a h) = geometry_objects h"
  "links (scan_in_place a h) = links h"
  "typed_arrays (scan_in_place a h) =
     (typed_arrays h)(array_ref (attribute_objects h a) :=
        map sanitize (typed_arrays h (array_ref (attribute_objects h a))))"
  "a' \<noteq> a \<Longrightarrow> attribute_objects (scan_in_place a h) a' = attribute_objects h a'"
  by (simp_all add: scan_in_place_eq links_def fun_eq_iff)

lemma sphere_in_place_fields:
  "material_objects (sphere_in_place lib r h) = material_objects h"
  "attribute_objects (sphere_in_place lib r h) = attribute_objects h"
  "typed_arrays (sphere_in_place lib r h) = typed_arrays h"
  "links (sphere_in_place lib r h) = links h"
  "r' \<noteq> r \<Longrightarrow> geometry_objects (sphere_in_place lib r h) r' = geometry_objects h r'"
  by (simp_all add: sphere_in_place_def links_def fun_eq_iff split: prod.splits)

lemma links_fields:
  assumes "links h' = links h"
  shows "attribute_refs (geometry_objects h' r) = attribute_refs (geometry_objects h r)"
    and "index_ref (geometry_objects h' r) = index_ref (geometry_objects h r)"
    and "array_ref (attribute_objects h' a) = array_ref (attribute_objects h a)"
    and "item_size (attribute_objects h' a) = item_size (attribute_objects h a)"
  using assms by (auto simp: links_def fun_eq_iff)

lemma links_written:
  assumes "links h' = links h"
  shows "written_attributes h' rs = written_attributes h rs"
    and "written_arrays h' rs = written_arrays h rs"
proof -
  have "position_attribute h' r = position_attribute h r" for r
    by (simp add: position_attribute_def links_fields(1) [OF assms])
  then have "position_attribute h' = position_attribute h"
    by (rule ext)
  then show attrs: "written_attributes h' rs = written_attributes h rs"
    by (simp add: written_attributes_def)
  show "written_arrays h' rs = written_arrays h rs"
    by (simp add: written_arrays_def attrs links_fields(3) [OF assms])
qed

lemma child_in_place_cases:
  obtains (same) "clean_child_in_place lib c h = h" and "written_attributes h (mesh_geometry c) = []"
  | (cleaned) r a where "mesh_geometry c = [r]" and "position_attribute h r = [a]"
      and "clean_child_in_place lib c h = sphere_in_place lib r (scan_in_place a h)"
proof (cases "isMesh c")
  case False
  then have "clean_child_in_place lib c h = h"
    by (simp add: clean_child_in_place_def)
  moreover have "written_attributes h (mesh_geometry c) = []"
    unfolding mesh_geometry_def using False by (simp add: written_attributes_def)
  ultimately show ?thesis by (rule same)
next
  case True
  show ?thesis
  proof (cases "geometry c")
    case None
    with True have "clean_child_in_place lib c h = h"
      by (simp add: clean_child_in_place_def)
    moreover have "written_attributes h (mesh_geometry c) = []"
      unfolding mesh_geometry_def using True None by (simp add: written_attributes_def)
    ultimately show ?thesis by (rule same)
  next
    case (Some r)
    have mesh: "mesh_geometry c = [r]"
      unfolding mesh_geometry_def using True Some by simp
    show ?thesis
    proof (cases "attribute_refs (geometry_objects h r) ''position''")
      case None
      with True Some have "clean_child_in_place lib c h = h"
        by (simp add: clean_child_in_place_def)
      moreover have "written_attributes h (mesh_geometry c) = []"
        by (simp add: mesh written_attributes_def position_attribute_def None)
      ultimately show ?thesis by (rule same)
    next
      case position: (Some a)
      have "position_attribute h r = [a]"
        by (simp add: position_attribute_def position)
      moreover have "clean_child_in_place lib c h = sphere_in_place lib r (scan_in_place a h)"
        using True Some position by (simp add: clean_child_in_place_def)
      ultimately show ?thesis using mesh by (intro cleaned)
    qed
  qed
qed

lemma child_links: "links (clean_child_in_place lib c h) = links h"
  by (cases rule: child_in_place_cases [of lib c h])
     (simp_all add: scan_in_place_fields sphere_in_place_fields)

lemma child_materials: "material_objects (clean_child_in_place lib c h) = material_objects h"
  by (cases rule: child_in_place_cases [of lib c h])
     (simp_all add: scan_in_place_fields sphere_in_place_fields)

lemma child_geometry_objects:
  "r \<notin> set (mesh_geometry c) \<Longrightarrow>
   geometry_objects (clean_child_in_place lib c h) r = geometry_objects h r"
  by (cases rule: child_in_place_cases [of lib c h])
     (simp_all add: scan_in_place_fields sphere_in_place_fields)

lemma child_attribute_objects:
  "a \<notin> set (written_attributes h (mesh_geometry c)) \<Longrightarrow>
   attribute_objects (clean_child_in_place lib c h) a = attribute_objects h a"
  by (cases rule: child_in_place_cases [of lib c h])
     (simp_all add: written_attributes_def scan_in_place_fields sphere_in_place_fields)

lemma child_typed_arrays:
  "typed_arrays (clean_child_in_place lib c h) b =
     (if b \<in> set (written_arrays h (mesh_geometry c))
      then map sanitize (typed_arrays h b) else typed_arrays h b)"
proof (cases rule: child_in_place_cases [of lib c h])
  case same
  then show ?thesis by (simp add: written_arrays_def)
next
  case (cleaned r a)
  then show ?thesis
    by (simp add: written_arrays_def written_attributes_def scan_in_place_fields
        sphere_in_place_fields)
qed

lemma written_append:
  "written_attributes h (rs @ rs') = written_attributes h rs @ written_attributes h rs'"
  "written_arrays h (rs @ rs') = written_arrays h rs @ written_arrays h rs'"
  by (simp_all add: written_attributes_def written_arrays_def)

lemma fold_links: "links (fold (clean_child_in_place lib) cs h) = links h"
  by (induction cs arbitrary: h) (simp_all add: child_links)

lemma fold_material_objects:
  "material_objects (fold (clean_child_in_place lib) cs h) = material_objects h"
  by (induction cs arbitrary: h) (simp_all add: child_materials)

lemma fold_geometry_objects:
  "r \<notin> set (concat (map mesh_geometry cs)) \<Longrightarrow>
   geometry_objects (fold (clean_child_in_place lib) cs h) r = geometry_objects h r"
  by (induction cs arbitrary: h) (simp_all add: child_geometry_objects)

lemma fold_attribute_objects:
  "a \<notin> set (written_attributes h (concat (map mesh_geometry cs))) \<Longrightarrow>
   attribute_objects (fold (clean_child_in_place lib) cs h) a = attribute_objects h a"
proof (induction cs arbitrary: h)
  case Nil
  show ?case by simp
next
  case (Cons c cs)
  let ?h = "clean_child_in_place lib c h"
  have same: "written_attributes ?h rs = written_attributes h rs" for rs
    by (rule links_written(1) [OF child_links])
  from Cons.prems have here: "a \<notin> set (written_attributes h (mesh_geometry c))"
    and later: "a \<notin> set (written_attributes ?h (concat (map mesh_geometry cs)))"
    by (simp_all add: written_append same)
  show ?case
    using Cons.IH [OF later] child_attribute_objects [OF here] by simp
qed

lemma fold_typed_arrays:
  "typed_arrays (fold (clean_child_in_place lib) cs h) b =
     (if b \<in> set (written_arrays h (concat (map mesh_geometry cs)))
      then map sanitize (typed_arrays h b) else typed_arrays h b)"
proof (induction cs arbitrary: h)
  case Nil
  show ?case by (simp add: written_arrays_def written_attributes_def)
next
  case (Cons c cs)
  let ?h = "clean_child_in_place lib c h"
  have same: "written_arrays ?h rs = written_arrays h rs" for rs
    by (rule links_written(2) [OF child_links])
  show ?case
    by (simp add: Cons.IH same written_append child_typed_arrays sanitize_idem)
qed

lemma in_place_Some:
  "useCleanModel_effect_in_place lib (Some scene) st =
     (Some scene, fold (clean_child_in_place lib) (nodes scene) (snd st))"
  by (simp add: useCleanModel_effect_in_place_def clone_id traverse_fold)

lemma child_in_place_other: "\<not> isMesh c \<Longrightarrow> clean_child_in_place lib c h = h"
  by (simp add: clean_child_in_place_def)

text \<open>
  When the meshes own their position attributes and arrays, the pass on the heap is the
  pass on the world of values.
\<close>

lemma read_attribute_scan:
  "read_attribute (scan_in_place a h) a' =
     (if a' = a then cleaned_position (read_attribute h a)
      else if array_ref (attribute_objects h a') = array_ref (attribute_objects h a)
      then (read_attribute h a')\<lparr>array := map sanitize (array (read_attribute h a'))\<rparr>
      else read_attribute h a')"
  by (simp add: read_attribute_def scan_in_place_eq cleaned_position_def map_sanitize_id)

lemma heap_events_scan:
  "heap_events (scan_in_place a h) = snd (fix_position (read_attribute h a) (heap_events h))"
  by (simp add: scan_in_place_eq fix_position_eq read_attribute_def)

lemma read_geometry_scan:
  assumes pos: "attribute_refs (geometry_objects h r) ''position'' = Some a" and own: "owned h r"
  shows "read_geometry (scan_in_place a h) r' =
           (if r' = r then scanned (read_geometry h r) else read_geometry h r')"
proof -
  have attr: "read_attribute (scan_in_place a h) a' = read_attribute h a'"
    if "attribute_refs (geometry_objects h r') name = Some a'" and "(r', name) \<noteq> (r, ''position'')"
    for r' name a'
    using own that by (simp add: owned_def pos read_attribute_scan)
  have idx: "read_attribute (scan_in_place a h) a' = read_attribute h a'"
    if "index_ref (geometry_objects h r') = Some a'" for r' a'
    using own that by (simp add: owned_def pos read_attribute_scan)
  have index: "map_option (read_attribute (scan_in_place a h)) (index_ref (geometry_objects h r')) =
      map_option (read_attribute h) (index_ref (geometry_objects h r'))" for r'
    by (cases "index_ref (geometry_objects h r')") (simp_all add: idx)
  have other: "map_option (read_attribute (scan_in_place a h)) (attribute_refs (geometry_objects h r') name) =
      map_option (read_attribute h) (attribute_refs (geometry_objects h r') name)"
    if "(r', name) \<noteq> (r, ''position'')" for r' name
    using that by (cases "attribute_refs (geometry_objects h r') name") (simp_all add: attr)
  show ?thesis
  proof (cases "r' = r")
    case False
    then have "(\<lambda>name. map_option (read_attribute (scan_in_place a h)) (attribute_refs (geometry_objects h r') name)) =
      (\<lambda>name. map_option (read_attribute h) (attribute_refs (geometry_objects h r') name))"
      by (intro ext other) simp
    with False show ?thesis
      by (simp add: read_geometry_def scan_in_place_fields index)
  next
    case True
    have p: "attributes (read_geometry h r) ''position'' = Some (read_attribute h a)"
      by (simp add: read_geometry_def pos)
    have "(\<lambda>name. map_option (read_attribute (scan_in_place a h)) (attribute_refs (geometry_objects h r) name)) =
      (attributes (read_geometry h r))(''position'' \<mapsto> cleaned_position (read_attribute h a))"
    proof
      fix name
      show "map_option (read_attribute (scan_in_place a h)) (attribute_refs (geometry_objects h r) name) =
        ((attributes (read_geometry h r))(''position'' \<mapsto> cleaned_position (read_attribute h a))) name"
      proof (cases "name = ''position''")
        case True
        then show ?thesis by (simp add: pos read_attribute_scan)
      next
        case False
        then show ?thesis using other [of r name] by (simp add: read_geometry_def)
      qed
    qed
    then show ?thesis
      using True by (simp add: scanned_Some [OF p]) (simp add: read_geometry_def scan_in_place_fields index)
  qed
qed

lemma sphere_in_place_eq:
  "sphere_in_place lib r h =
     h\<lparr>geometry_objects :=
         (geometry_objects h)
           (r := (geometry_objects h r)\<lparr>bounding_sphere := Some (forced (lib (read_geometry h r)))\<rparr>),
       heap_events := snd (compute_sphere lib (read_geometry h r) (heap_events h))\<rparr>"
proof -
  obtain geom evs where c: "compute_sphere lib (read_geometry h r) (heap_events h) = (geom, evs)"
    by force
  have "force_sphere geom = (read_geometry h r)\<lparr>boundingSphere := Some (forced (lib (read_geometry h r)))\<rparr>"
    using force_compute [of lib "read_geometry h r" "heap_events h"] by (simp add: c)
  then have "boundingSphere (force_sphere geom) = Some (forced (lib (read_geometry h r)))"
    by simp
  then show ?thesis
    by (simp add: sphere_in_place_def c)
qed

lemma read_attribute_sphere: "read_attribute (sphere_in_place lib r h) a = read_attribute h a"
  by (simp add: read_attribute_def sphere_in_place_fields)

lemma read_geometry_sphere:
  "read_geometry (sphere_in_place lib r h) r' =
     (if r' = r then (read_geometry h r)\<lparr>boundingSphere := Some (forced (lib (read_geometry h r)))\<rparr>
      else read_geometry h r')"
proof -
  have attrs: "read_attribute (sphere_in_place lib r h) = read_attribute h"
    by (rule ext) (rule read_attribute_sphere)
  have geom: "geometry_objects (sphere_in_place lib r h) r' =
      (if r' = r
       then (geometry_objects h r)\<lparr>bounding_sphere := Some (forced (lib (read_geometry h r)))\<rparr>
       else geometry_objects h r')"
    by (subst sphere_in_place_eq) simp
  show ?thesis
    unfolding read_geometry_def [of "sphere_in_place lib r h"] attrs geom
    by (simp add: read_geometry_def)
qed

lemma heap_events_sphere:
  "heap_events (sphere_in_place lib r h) = snd (compute_sphere lib (read_geometry h r) (heap_events h))"
  by (simp add: sphere_in_place_def split: prod.splits)

lemma snd_clean_geometry:
  assumes "attributes geom ''position'' = Some p"
  shows "snd (clean_geometry lib geom evs) =
           snd (compute_sphere lib (scanned geom) (snd (fix_position p evs)))"
  by (simp add: clean_geometry_def assms fix_geometry_eq scanned_Some [OF assms] split: prod.splits)

lemma view_fields:
  "geometries (view h) = read_geometry h"
  "materials (view h) = material_objects h"
  "events (view h) = heap_events h"
  by (simp_all add: view_def)

lemma view_clean_child:
  assumes "\<forall>r \<in> set (mesh_geometry c). owned h r"
  shows "view (clean_child_in_place lib c h) = clean_child lib c (view h)"
proof (cases "isMesh c")
  case False
  then show ?thesis by (simp add: clean_child_in_place_def clean_child_def)
next
  case True
  show ?thesis
  proof (cases "geometry c")
    case None
    with True show ?thesis by (simp add: clean_child_in_place_def clean_child_def)
  next
    case (Some r)
    have mesh: "mesh_geometry c = [r]"
      unfolding mesh_geometry_def using True Some by simp
    with assms have own: "owned h r" by simp
    let ?g = "read_geometry h r"
    show ?thesis
    proof (cases "attribute_refs (geometry_objects h r) ''position''")
      case None
      then have "attributes ?g ''position'' = None"
        by (simp add: read_geometry_def)
      then have "clean_geometry lib (geometries (view h) r) (events (view h)) = (?g, heap_events h)"
        unfolding view_fields by (rule clean_geometry_None)
      then have "clean_child lib c (view h) = view h"
        using True Some by (simp add: clean_child_def view_fields [symmetric])
      moreover have "clean_child_in_place lib c h = h"
        using True Some None by (simp add: clean_child_in_place_def)
      ultimately show ?thesis by simp
    next
      case position: (Some a)
      let ?h1 = "scan_in_place a h"
      let ?h2 = "sphere_in_place lib r ?h1"
      let ?w = "clean_child lib c (view h)"
      have p: "attributes ?g ''position'' = Some (read_attribute h a)"
        by (simp add: read_geometry_def position)
      have g1: "read_geometry ?h1 r = scanned ?g"
        by (simp add: read_geometry_scan [OF position own])
      have "read_geometry ?h2 r' = geometries ?w r'" for r'
      proof (cases "r' = r")
        case True
        then show ?thesis
          by (simp add: read_geometry_sphere g1 clean_geometry_Some [OF p]
              clean_child_geometries mesh view_fields)
      next
        case False
        then show ?thesis
          by (simp add: read_geometry_sphere read_geometry_scan [OF position own]
              clean_child_geometries mesh view_fields)
      qed
      then have geoms: "geometries (view ?h2) = geometries ?w"
        unfolding view_fields by (rule ext)
      have "heap_events ?h2 =
          snd (compute_sphere lib (scanned ?g) (snd (fix_position (read_attribute h a) (heap_events h))))"
        by (simp only: heap_events_sphere heap_events_scan g1)
      then have "heap_events ?h2 = snd (clean_geometry lib ?g (heap_events h))"
        by (simp only: snd_clean_geometry [OF p])
      then have evs: "events (view ?h2) = events ?w"
        by (simp add: clean_child_events mesh view_fields)
      have mats: "materials (view ?h2) = materials ?w"
        by (simp add: clean_child_materials view_fields sphere_in_place_fields scan_in_place_fields)
      have "view ?h2 = ?w"
        using geoms mats evs by (rule world.equality) simp
      moreover have "clean_child_in_place lib c h = ?h2"
        using True Some position by (simp add: clean_child_in_place_def)
      ultimately show ?thesis by simp
    qed
  qed
qed

lemma owned_links:
  assumes "links h' = links h"
  shows "owned h' r = owned h r"
  unfolding owned_def
  by (simp only: links_fields(1) [OF assms] links_fields(2) [OF assms] links_fields(3) [OF assms])

lemma view_fold:
  "\<forall>r \<in> set (concat (map mesh_geometry cs)). owned h r \<Longrightarrow>
   view (fold (clean_child_in_place lib) cs h) = fold (clean_child lib) cs (view h)"
proof (induction cs arbitrary: h)
  case Nil
  show ?case by simp
next
  case (Cons c cs)
  have here: "\<forall>r \<in> set (mesh_geometry c). owned h r"
    using Cons.prems by simp
  have later: "\<forall>r \<in> set (concat (map mesh_geometry cs)). owned (clean_child_in_place lib c h) r"
    using Cons.prems by (simp add: owned_links [OF child_links])
  show ?case
    using Cons.IH [OF later] view_clean_child [OF here] by simp
qed

lemma separate_owned: "owned separate_heap 0"
  by (auto simp: owned_def separate_heap_def split: if_splits)

section \<open>The components, characterised\<close>

lemma tagged_Fallback_mesh:
  "map (\<lambda>e. map tag (kids e)) (tagged ''mesh'' (FallbackComputer b)) =
     [[''boxGeometry'', ''meshStandardMaterial''], [''boxGeometry'', ''meshStandardMaterial'']]"
  by (simp add: FallbackComputer_def tagged_def)

lemma changes_fold:
  "listening st \<Longrightarrow>
   isMobile (fold (canvas_step matchMedia) (map Media_change changes) st) = last (isMobile st # changes)"
  by (induction changes arbitrary: st) simp_all

lemma canvas_suspended:
  "ComputersCanvas_render st Suspend cleanScene =
     Done (Element ''Canvas''
       [(''frameloop'', PStr ''demand''), (''shadows'', PBool True), (''dpr'', PVec [1, 2]),
        (''camera'', PRecord [(''position'', PVec [20, 3, 5]), (''fov'', PNum 25)]),
        (''gl'', PRecord [(''preserveDrawingBuffer'', PBool True)]),
        (''style'', PRecord
           [(''height'', PStr ''100%''), (''width'', PStr ''100%''), (''position'', PStr ''absolute''),
            (''top'', PNum 0), (''left'', PNum 0), (''zIndex'', PNum 0)])]
       [Element ''Suspense'' [(''fallback'', PElement (Element ''CanvasLoader'' [] []))]
          [Element ''CanvasLoader'' [] []],
        Element ''Preload'' [(''all'', PBool True)] []])"
  by (simp add: ComputersCanvas_render_def Computers_render_def useCleanModel_def
      ComputersCanvas_def suspended_def)

section \<open>The example, run\<close>

text \<open>
  The events of the effect on the example scene, by running the definitions: the first
  mesh finds the elements to replace, the second mesh finds the same array clean.
\<close>

lemma example_run:
  "events (snd (useCleanModel_effect example_library (Some example_scene) (None, example_world))) =
     [Iteration 0, Iteration 1, Iteration 2, Iteration 3, Iteration 4, Iteration 5,
      Console_log ''Fixed NaN values in geometry'', Set_needsUpdate, Call_computeBoundingSphere,
      Iteration 0, Iteration 1, Iteration 2, Iteration 3, Iteration 4, Iteration 5,
      Call_computeBoundingSphere]"
  by (simp add: useCleanModel_effect_def example_scene_def example_world_def example_geometry_def
      example_position_def example_library_def clean_child_def clean_geometry_def fix_geometry_def
      fix_position_def compute_sphere_def force_sphere_def scan_loop.simps Let_def)

lemma example_result:
  "geometries (snd (useCleanModel_effect example_library (Some example_scene) (None, example_world))) 0 =
     \<lparr>attributes =
        [''position'' \<mapsto>
           \<lparr>array = [Number 1, Number 0, Number 0, Number 0, Number (- 2.5), Number 0],
            itemSize = 3, needsUpdate = True\<rparr>,
         ''normal'' \<mapsto> example_normal],
      index = None,
      boundingSphere =
        Some \<lparr>center = Vector3 (Number 0) (Number 0) (Number 0), radius = Number 2\<rparr>\<rparr>"
  by (simp add: useCleanModel_effect_def example_scene_def example_world_def example_geometry_def
      example_position_def example_library_def clean_child_def clean_geometry_def fix_geometry_def
      fix_position_def compute_sphere_def force_sphere_def scan_loop.simps Let_def fun_upd_twist)

text \<open>
  The effect on the heap with the interleaved buffer, by running the definitions.
\<close>

lemma interleaved_run:
  "snd (useCleanModel_effect_in_place example_library (Some interleaved_scene) (None, interleaved_heap)) =
     interleaved_heap
       \<lparr>typed_arrays :=
          (typed_arrays interleaved_heap)(0 := [Number 1, Number 2, Number 3, Number 0, Number 0, Number 1]),
        attribute_objects :=
          (attribute_objects interleaved_heap)(0 := \<lparr>array_ref = 0, item_size = 3, needs_update = True\<rparr>),
        geometry_objects :=
          (geometry_objects interleaved_heap)
            (0 := \<lparr>attribute_refs = [''position'' \<mapsto> 0, ''normal'' \<mapsto> 1, ''uv'' \<mapsto> 2],
                   index_ref = None,
                   bounding_sphere =
                     Some \<lparr>center = Vector3 (Number 0) (Number 0) (Number 0), radius = Number 2\<rparr>\<rparr>),
        heap_events :=
          [Iteration 0, Iteration 1, Iteration 2, Iteration 3, Iteration 4, Iteration 5,
           Console_log ''Fixed NaN values in geometry'', Set_needsUpdate,
           Call_computeBoundingSphere]\<rparr>"
  by (simp add: useCleanModel_effect_in_place_def interleaved_scene_def interleaved_heap_def
      clean_child_in_place_def scan_in_place_def sphere_in_place_def compute_sphere_def
      force_sphere_def example_library_def scan_loop.simps Let_def)

section \<open>The properties\<close>

subsection \<open>The position array\<close>

text \<open>
  C1. Take a scene, a mesh of it whose geometry \<open>r\<close> has a position attribute, and run
  the effect of \<open>useCleanModel\<close> on it. Afterwards the geometry still has its position
  attribute, with an array of the same length, in which every element is finite: where
  the element was NaN, \<open>Infinity\<close> or \<open>-Infinity\<close> it is now 0, and where it was finite
  it is what it was. This holds however many meshes of the scene share the geometry.
\<close>

theorem C1_positions_finite:
  assumes "r \<in> set (mesh_geometries scene)"
      and "attributes (geometries w r) ''position'' = Some position"
  shows "\<exists>position'.
           attributes (geometries (snd (useCleanModel_effect lib (Some scene) (cleanScene, w))) r)
             ''position'' = Some position' \<and>
           length (array position') = length (array position) \<and>
           (\<forall>i < length (array position).
              isFinite (array position' ! i) \<and>
              (array position ! i = NaN \<or> array position ! i = Infinity \<or>
               array position ! i = NegInfinity \<longrightarrow> array position' ! i = Number 0) \<and>
              (isFinite (array position ! i) \<longrightarrow> array position' ! i = array position ! i))"
proof -
  let ?w' = "snd (useCleanModel_effect lib (Some scene) (cleanScene, w))"
  have before: "position_array (geometries w r) = Some (array position)"
    using assms(2) by (simp add: position_array_def)
  have "position_array (geometries ?w' r) = Some (map sanitize (array position))"
    using assms(1) by (simp add: effect_Some fold_position_array mesh_geometries_nodes before)
  then obtain p' where p': "attributes (geometries ?w' r) ''position'' = Some p'"
    and arr: "array p' = map sanitize (array position)"
    by (auto simp: position_array_Some)
  have "isFinite (array p' ! i) \<and>
        (array position ! i = NaN \<or> array position ! i = Infinity \<or>
         array position ! i = NegInfinity \<longrightarrow> array p' ! i = Number 0) \<and>
        (isFinite (array position ! i) \<longrightarrow> array p' ! i = array position ! i)"
    if "i < length (array position)" for i
    using that
    by (cases "array position ! i") (simp_all add: arr sanitize_def replaced_def)
  with p' arr show ?thesis by auto
qed

text \<open>C1 on the example scene: the array \<open>[1, NaN, \<infinity>, -\<infinity>, -2.5, 0]\<close> of the shared geometry.\<close>

theorem C1_positions_finite_witness:
  "0 \<in> set (mesh_geometries example_scene) \<and>
   attributes (geometries example_world 0) ''position'' = Some example_position \<and>
   (\<exists>position'.
      attributes (geometries (snd (useCleanModel_effect example_library (Some example_scene)
        (None, example_world))) 0) ''position'' = Some position' \<and>
      length (array position') = 6 \<and>
      array position' ! 0 = Number 1 \<and> array position' ! 1 = Number 0 \<and>
      array position' ! 2 = Number 0 \<and> array position' ! 3 = Number 0 \<and>
      array position' ! 4 = Number (- 2.5))"
proof -
  have h1: "0 \<in> set (mesh_geometries example_scene)"
    by (simp add: example_scene_def mesh_geometries_def mesh_geometry_def)
  have h2: "attributes (geometries example_world 0) ''position'' = Some example_position"
    by (simp add: example_world_def example_geometry_def)
  from C1_positions_finite [OF h1 h2, of example_library None]
  obtain p where p: "attributes (geometries (snd (useCleanModel_effect example_library
        (Some example_scene) (None, example_world))) 0) ''position'' = Some p"
    and len: "length (array p) = length (array example_position)"
    and el: "\<And>i. i < length (array example_position) \<Longrightarrow>
              isFinite (array p ! i) \<and>
              (array example_position ! i = NaN \<or> array example_position ! i = Infinity \<or>
               array example_position ! i = NegInfinity \<longrightarrow> array p ! i = Number 0) \<and>
              (isFinite (array example_position ! i) \<longrightarrow> array p ! i = array example_position ! i)"
    by blast
  have "length (array p) = 6"
    using len by (simp add: example_position_def)
  moreover have "array p ! 0 = Number 1"
    using el [of 0] by (simp add: example_position_def)
  moreover have "array p ! 1 = Number 0"
    using el [of 1] by (simp add: example_position_def)
  moreover have "array p ! 2 = Number 0"
    using el [of 2] by (simp add: example_position_def)
  moreover have "array p ! 3 = Number 0"
    using el [of 3] by (simp add: example_position_def)
  moreover have "array p ! 4 = Number (- 2.5)"
    using el [of 4] by (simp add: example_position_def)
  ultimately show ?thesis using h1 h2 p by blast
qed

subsection \<open>The bounding sphere\<close>

text \<open>
  C2. After the pass on a geometry with a position attribute, \<open>geometry.boundingSphere\<close>
  is the default sphere (centre \<open>(0, 0, 0)\<close>, radius 5) if the call of the library threw,
  left no sphere, or left one whose radius is NaN or 0, and otherwise it is the sphere
  that the library computed; in each case its radius is neither NaN nor 0. The same
  holds of the geometry of every mesh once the effect has run on a whole scene.
\<close>

theorem C2_bounding_sphere_forced:
  assumes "attributes geom ''position'' = Some position"
  shows "boundingSphere (fst (clean_geometry lib geom evs)) =
           Some (case lib (scanned geom) of
                   Throws \<Rightarrow>
                     \<lparr>center = Vector3 (Number 0) (Number 0) (Number 0), radius = Number 5\<rparr>
                 | Returns None \<Rightarrow>
                     \<lparr>center = Vector3 (Number 0) (Number 0) (Number 0), radius = Number 5\<rparr>
                 | Returns (Some s) \<Rightarrow>
                     if radius s = NaN \<or> radius s = Number 0
                     then \<lparr>center = Vector3 (Number 0) (Number 0) (Number 0), radius = Number 5\<rparr>
                     else s) \<and>
         (\<exists>s. boundingSphere (fst (clean_geometry lib geom evs)) = Some s \<and>
              radius s \<noteq> NaN \<and> radius s \<noteq> Number 0) \<and>
         (\<forall>scene cleanScene (w :: 'm world) r.
            r \<in> set (mesh_geometries scene) \<and> geometries w r = geom \<longrightarrow>
            (\<exists>s. boundingSphere (geometries (snd (useCleanModel_effect lib (Some scene)
                    (cleanScene, w))) r) = Some s \<and>
                 radius s \<noteq> NaN \<and> radius s \<noteq> Number 0))"
proof -
  have nan: "isNaN v \<longleftrightarrow> v = NaN" for v by (cases v) simp_all
  have sphere: "boundingSphere (fst (clean_geometry lib geom evs)) = Some (forced (lib (scanned geom)))"
    by (rule clean_geometry_sphere [OF assms])
  have forced: "forced (lib (scanned geom)) =
      (case lib (scanned geom) of
         Throws \<Rightarrow> \<lparr>center = Vector3 (Number 0) (Number 0) (Number 0), radius = Number 5\<rparr>
       | Returns None \<Rightarrow> \<lparr>center = Vector3 (Number 0) (Number 0) (Number 0), radius = Number 5\<rparr>
       | Returns (Some s) \<Rightarrow>
           if radius s = NaN \<or> radius s = Number 0
           then \<lparr>center = Vector3 (Number 0) (Number 0) (Number 0), radius = Number 5\<rparr>
           else s)"
    by (simp add: forced_def default_sphere_def nan split: outcome.splits option.splits)
  have whole: "\<exists>s. boundingSphere (geometries (snd (useCleanModel_effect lib (Some scene)
                    (cleanScene, w))) r) = Some s \<and> radius s \<noteq> NaN \<and> radius s \<noteq> Number 0"
    if "r \<in> set (mesh_geometries scene)" and "geometries w r = geom"
    for scene cleanScene and w :: "'m world" and r
  proof -
    have "valid_sphere (geometries (fold (clean_child lib) (nodes scene) w) r)"
      using that assms by (intro valid_sphere_fold) (simp_all add: mesh_geometries_nodes)
    then show ?thesis
      by (simp add: effect_Some valid_sphere_def split: option.splits)
  qed
  show ?thesis
    using sphere forced forced_radius [of "lib (scanned geom)"] whole by simp
qed

text \<open>
  C2 on the example geometry, for a library that returns a sphere of radius 2, one that
  throws, one that leaves no sphere and one that leaves a sphere of radius NaN.
\<close>

theorem C2_bounding_sphere_forced_witness:
  "attributes example_geometry ''position'' = Some example_position \<and>
   boundingSphere (fst (clean_geometry example_library example_geometry [])) =
     Some \<lparr>center = Vector3 (Number 0) (Number 0) (Number 0), radius = Number 2\<rparr> \<and>
   boundingSphere (fst (clean_geometry (\<lambda>geom. Throws) example_geometry [])) =
     Some \<lparr>center = Vector3 (Number 0) (Number 0) (Number 0), radius = Number 5\<rparr> \<and>
   boundingSphere (fst (clean_geometry (\<lambda>geom. Returns None) example_geometry [])) =
     Some \<lparr>center = Vector3 (Number 0) (Number 0) (Number 0), radius = Number 5\<rparr> \<and>
   boundingSphere (fst (clean_geometry
     (\<lambda>geom. Returns (Some \<lparr>center = Vector3 NaN NaN NaN, radius = NaN\<rparr>)) example_geometry [])) =
     Some \<lparr>center = Vector3 (Number 0) (Number 0) (Number 0), radius = Number 5\<rparr> \<and>
   0 \<in> set (mesh_geometries example_scene) \<and>
   geometries example_world 0 = example_geometry \<and>
   (\<exists>s. boundingSphere (geometries (snd (useCleanModel_effect example_library (Some example_scene)
           (None, example_world))) 0) = Some s \<and>
        radius s \<noteq> NaN \<and> radius s \<noteq> Number 0)"
proof -
  have h: "attributes example_geometry ''position'' = Some example_position"
    by (simp add: example_geometry_def)
  have mesh: "0 \<in> set (mesh_geometries example_scene)"
    by (simp add: example_scene_def mesh_geometries_def mesh_geometry_def)
  have geom: "geometries example_world 0 = example_geometry"
    by (simp add: example_world_def)
  have returned: "boundingSphere (fst (clean_geometry example_library example_geometry [])) =
     Some \<lparr>center = Vector3 (Number 0) (Number 0) (Number 0), radius = Number 2\<rparr>"
    using C2_bounding_sphere_forced [OF h, of example_library "[]", THEN conjunct1]
    by (simp add: example_library_def)
  have threw: "boundingSphere (fst (clean_geometry (\<lambda>geom. Throws) example_geometry [])) =
     Some \<lparr>center = Vector3 (Number 0) (Number 0) (Number 0), radius = Number 5\<rparr>"
    using C2_bounding_sphere_forced [OF h, of "\<lambda>geom. Throws" "[]", THEN conjunct1] by simp
  have missing: "boundingSphere (fst (clean_geometry (\<lambda>geom. Returns None) example_geometry [])) =
     Some \<lparr>center = Vector3 (Number 0) (Number 0) (Number 0), radius = Number 5\<rparr>"
    using C2_bounding_sphere_forced [OF h, of "\<lambda>geom. Returns None" "[]", THEN conjunct1] by simp
  have nan: "boundingSphere (fst (clean_geometry
     (\<lambda>geom. Returns (Some \<lparr>center = Vector3 NaN NaN NaN, radius = NaN\<rparr>)) example_geometry [])) =
     Some \<lparr>center = Vector3 (Number 0) (Number 0) (Number 0), radius = Number 5\<rparr>"
    using C2_bounding_sphere_forced [OF h,
        of "\<lambda>geom. Returns (Some \<lparr>center = Vector3 NaN NaN NaN, radius = NaN\<rparr>)" "[]",
        THEN conjunct1]
    by simp
  have whole: "\<exists>s. boundingSphere (geometries (snd (useCleanModel_effect example_library
           (Some example_scene) (None, example_world))) 0) = Some s \<and>
        radius s \<noteq> NaN \<and> radius s \<noteq> Number 0"
    using C2_bounding_sphere_forced [OF h, of example_library "[]", THEN conjunct2, THEN conjunct2]
      mesh geom
    by blast
  from h returned threw missing nan mesh geom whole show ?thesis by blast
qed

text \<open>
  C9. When all elements of the position array are finite and the library returns a
  sphere of radius exactly 0, as it does for vertices that coincide, that sphere is
  dropped: the geometry gets the default sphere, centre \<open>(0, 0, 0)\<close> and radius 5.
\<close>

theorem C9_zero_radius_replaced:
  assumes "attributes geom ''position'' = Some position"
      and "\<forall>v \<in> set (array position). isFinite v"
      and "lib geom = Returns (Some s)"
      and "radius s = Number 0"
  shows "boundingSphere (fst (clean_geometry lib geom evs)) = Some default_sphere \<and>
         default_sphere \<noteq> s \<and>
         center default_sphere = Vector3 (Number 0) (Number 0) (Number 0) \<and>
         radius default_sphere = Number 5"
proof -
  have "scanned geom = geom" using assms(1,2) by (rule scanned_finite)
  then have "forced (lib (scanned geom)) = default_sphere"
    using assms(3,4) by (simp add: forced_def)
  moreover have "default_sphere \<noteq> s"
    using assms(4) by (auto simp: default_sphere_def)
  ultimately show ?thesis
    by (simp add: clean_geometry_sphere [OF assms(1)]) (simp add: default_sphere_def)
qed

text \<open>C9 on two vertices at \<open>(1, 2, 3)\<close>, with the sphere of radius 0 around that point.\<close>

theorem C9_zero_radius_replaced_witness:
  "attributes point_geometry ''position'' = Some point_position \<and>
   list_all isFinite (array point_position) \<and>
   radius point_sphere = Number 0 \<and>
   boundingSphere (fst (clean_geometry (\<lambda>geom. Returns (Some point_sphere)) point_geometry [])) =
     Some default_sphere \<and>
   default_sphere \<noteq> point_sphere"
proof -
  have h1: "attributes point_geometry ''position'' = Some point_position"
    by (simp add: point_geometry_def)
  have h2: "\<forall>v \<in> set (array point_position). isFinite v"
    by (simp add: point_position_def)
  have h3: "(\<lambda>geom. Returns (Some point_sphere)) point_geometry = Returns (Some point_sphere)"
    by simp
  have h4: "radius point_sphere = Number 0"
    by (simp add: point_sphere_def)
  show ?thesis
    using h1 h2 h4 C9_zero_radius_replaced [OF h1 h2 h3 h4, of "[]"]
    by (simp add: list_all_iff)
qed

subsection \<open>The components\<close>

text \<open>
  C3, once \<open>useGLTF\<close> has returned. When \<open>useGLTF\<close> has returned and \<open>useCleanModel\<close>
  returns \<open>null\<close>, as it does until its effect has run with a loaded scene, \<open>Computers\<close>
  renders \<open>FallbackComputer\<close>: no \<open>primitive\<close>, and two meshes made of a \<open>boxGeometry\<close>
  and a \<open>meshStandardMaterial\<close> each. When it returns a scene, \<open>Computers\<close> renders one
  \<open>primitive\<close> whose object is that scene, and neither a \<open>boxGeometry\<close> nor a
  \<open>meshStandardMaterial\<close>. While the model is loading, \<open>useGLTF\<close> suspends the render of
  \<open>Computers\<close> and the canvas shows the \<open>CanvasLoader\<close> of its \<open>Suspense\<close>; when loading
  has failed, \<open>useGLTF\<close> throws and the render fails.
\<close>

theorem C3_fallback_or_model:
  "Computers_render b (Done gltf_scene) None = Done (FallbackComputer b) \<and>
   tagged ''primitive'' (FallbackComputer b) = [] \<and>
   map (\<lambda>e. map tag (kids e)) (tagged ''mesh'' (FallbackComputer b)) =
     [[''boxGeometry'', ''meshStandardMaterial''], [''boxGeometry'', ''meshStandardMaterial'']] \<and>
   Computers_render b (Done gltf_scene) (Some scene) = Done (Computers b (Some scene)) \<and>
   map (\<lambda>e. map_of (props e) ''object'') (tagged ''primitive'' (Computers b (Some scene))) =
     [Some (PObject scene)] \<and>
   tagged ''boxGeometry'' (Computers b (Some scene)) = [] \<and>
   tagged ''meshStandardMaterial'' (Computers b (Some scene)) = [] \<and>
   Computers b (Some scene) \<noteq> FallbackComputer b \<and>
   Computers_render b Suspend cleanScene = Suspend \<and>
   Computers_render b Fail cleanScene = Fail \<and>
   map tag (shown (ComputersCanvas_render st Suspend cleanScene)) =
     [''Canvas'', ''Suspense'', ''CanvasLoader'', ''Preload''] \<and>
   ComputersCanvas_render st Fail cleanScene = Fail \<and>
   fst (useCleanModel_effect lib None (None, w)) = None \<and>
   fst (useCleanModel_effect lib (Some loaded) (None, w)) = Some loaded"
proof -
  have "Computers_render b (Done gltf_scene) None = Done (FallbackComputer b)"
    by (simp add: Computers_render_def useCleanModel_def Computers_def)
  moreover have "tagged ''primitive'' (FallbackComputer b) = []"
    by (simp add: FallbackComputer_def tagged_def)
  moreover note tagged_Fallback_mesh [of b]
  moreover have "Computers_render b (Done gltf_scene) (Some scene) = Done (Computers b (Some scene))"
    by (simp add: Computers_render_def useCleanModel_def)
  moreover have "map (\<lambda>e. map_of (props e) ''object'') (tagged ''primitive'' (Computers b (Some scene))) =
     [Some (PObject scene)]"
    by (simp add: Computers_def tagged_def)
  moreover have "tagged ''boxGeometry'' (Computers b (Some scene)) = []"
    by (simp add: Computers_def tagged_def)
  moreover have "tagged ''meshStandardMaterial'' (Computers b (Some scene)) = []"
    by (simp add: Computers_def tagged_def)
  moreover have "Computers b (Some scene) \<noteq> FallbackComputer b"
    by (simp add: Computers_def FallbackComputer_def)
  moreover have "Computers_render b Suspend cleanScene = Suspend"
    and "Computers_render b Fail cleanScene = Fail"
    by (simp_all add: Computers_render_def useCleanModel_def)
  moreover have "map tag (shown (ComputersCanvas_render st Suspend cleanScene)) =
     [''Canvas'', ''Suspense'', ''CanvasLoader'', ''Preload'']"
    by (simp add: canvas_suspended shown_def)
  moreover have "ComputersCanvas_render st Fail cleanScene = Fail"
    by (simp add: ComputersCanvas_render_def Computers_render_def useCleanModel_def)
  moreover have "fst (useCleanModel_effect lib None (None, w)) = None"
    by (simp add: effect_None)
  moreover have "fst (useCleanModel_effect lib (Some loaded) (None, w)) = Some loaded"
    by (simp add: effect_Some)
  ultimately show ?thesis by blast
qed

text \<open>C3 on a small viewport, with the example scene loaded, before and after the effect.\<close>

theorem C3_fallback_or_model_witness:
  "Computers_render True (Done (Some example_scene)) None = Done (FallbackComputer True) \<and>
   Computers_render True (Done (Some example_scene)) (Some example_scene) =
     Done (Computers True (Some example_scene)) \<and>
   map (\<lambda>e. map_of (props e) ''object'') (tagged ''primitive'' (Computers True (Some example_scene))) =
     [Some (PObject example_scene)] \<and>
   tagged ''boxGeometry'' (Computers True (Some example_scene)) = [] \<and>
   Computers_render True Suspend None = Suspend"
  using C3_fallback_or_model [of True "Some example_scene" example_scene None initial_canvas
      example_library example_world example_scene]
  by simp

text \<open>
  C3 as it was stated fails while the model is loading and when loading has failed:
  there is no cleaned scene, and \<open>Computers\<close> does not render \<open>FallbackComputer\<close>. In
  the first case the canvas shows \<open>CanvasLoader\<close> and no \<open>boxGeometry\<close>; in the second
  nothing is shown.
\<close>

theorem C3_loading_counterexample:
  "Computers_render True Suspend None = Suspend \<and>
   Computers_render True Suspend None \<noteq> Done (FallbackComputer True) \<and>
   map tag (shown (ComputersCanvas_render initial_canvas Suspend None)) =
     [''Canvas'', ''Suspense'', ''CanvasLoader'', ''Preload''] \<and>
   Computers_render True Fail None = Fail \<and>
   Computers_render True Fail None \<noteq> Done (FallbackComputer True) \<and>
   shown (ComputersCanvas_render initial_canvas Fail None) = []"
  by (simp add: canvas_suspended shown_def)
     (simp add: Computers_render_def useCleanModel_def ComputersCanvas_render_def shown_def)

text \<open>
  C4. In every render the \<open>primitive\<close> has scale 0.3 and position \<open>[0, -3, -2.2]\<close> when
  \<open>isMobile\<close> is true, and scale 0.6 and position \<open>[0, -3.7, -1.4]\<close> otherwise, and
  \<open>ComputersCanvas\<close> passes its own flag \<open>isMobile\<close> down. The effect sets the flag to
  whether the media query \<open>(max-width: 500px)\<close> matches and registers the handler; from
  then on every change event sets the flag to the event's \<open>matches\<close>, so that after the
  effect and any number of change events the flag is what the last of them said.
\<close>

theorem C4_responsive:
  "map (\<lambda>e. (map_of (props e) ''scale'', map_of (props e) ''position''))
     (tagged ''primitive'' (Computers b (Some scene))) =
     [(Some (PNum (if b then 0.3 else 0.6)),
       Some (PVec (if b then [0, - 3, - 2.2] else [0, - 3.7, - 1.4])))] \<and>
   tagged ''primitive'' (ComputersCanvas st (Some scene)) =
     tagged ''primitive'' (Computers (isMobile st) (Some scene)) \<and>
   isMobile (canvas_step matchMedia Effect_run st) = matchMedia ''(max-width: 500px)'' \<and>
   listening (canvas_step matchMedia Effect_run st) \<and>
   (listening st \<longrightarrow>
      isMobile (canvas_step matchMedia (Media_change matches) st) = matches \<and>
      listening (canvas_step matchMedia (Media_change matches) st)) \<and>
   isMobile (fold (canvas_step matchMedia) (Effect_run # map Media_change changes) initial_canvas) =
     last (matchMedia ''(max-width: 500px)'' # changes)"
proof -
  have "map (\<lambda>e. (map_of (props e) ''scale'', map_of (props e) ''position''))
     (tagged ''primitive'' (Computers b (Some scene))) =
     [(Some (PNum (if b then 0.3 else 0.6)),
       Some (PVec (if b then [0, - 3, - 2.2] else [0, - 3.7, - 1.4])))]"
    by (simp add: Computers_def tagged_def)
  moreover have "tagged ''primitive'' (ComputersCanvas st (Some scene)) =
     tagged ''primitive'' (Computers (isMobile st) (Some scene))"
    by (simp add: ComputersCanvas_def tagged_def)
  moreover have "isMobile (fold (canvas_step matchMedia) (Effect_run # map Media_change changes) initial_canvas) =
     last (matchMedia ''(max-width: 500px)'' # changes)"
    using changes_fold [of "canvas_step matchMedia Effect_run initial_canvas" matchMedia changes]
    by simp
  ultimately show ?thesis by simp
qed

text \<open>C4 on a narrow viewport that then widens, and the two renders of the model.\<close>

theorem C4_responsive_witness:
  "listening (canvas_step narrow_viewport Effect_run initial_canvas) \<and>
   isMobile (canvas_step narrow_viewport Effect_run initial_canvas) \<and>
   \<not> isMobile (canvas_step narrow_viewport (Media_change False)
       (canvas_step narrow_viewport Effect_run initial_canvas)) \<and>
   map (\<lambda>e. (map_of (props e) ''scale'', map_of (props e) ''position''))
     (tagged ''primitive'' (Computers True (Some example_scene))) =
     [(Some (PNum 0.3), Some (PVec [0, - 3, - 2.2]))] \<and>
   map (\<lambda>e. (map_of (props e) ''scale'', map_of (props e) ''position''))
     (tagged ''primitive'' (Computers False (Some example_scene))) =
     [(Some (PNum 0.6), Some (PVec [0, - 3.7, - 1.4]))]"
  using C4_responsive [of True example_scene "canvas_step narrow_viewport Effect_run initial_canvas"
      narrow_viewport False "[]"]
    C4_responsive [of False example_scene initial_canvas narrow_viewport False "[]"]
  by (simp add: narrow_viewport_def)

subsection \<open>One scan, one call\<close>

text \<open>
  C5, for each mesh rather than for each geometry. Every function of the pass is total:
  the loop ends, since the distance from the index to the fixed length of the array
  decreases, and the traversal follows the tree. The pass on a geometry with a position
  attribute runs the body of the loop once for each index of the array, in increasing
  order, and then calls the library once; within it no index is visited twice and there
  is no second call. Over a scene, the iterations and calls are exactly those of one
  such pass for each mesh with a geometry, in the order of the traversal: a geometry that
  several meshes refer to is scanned, and its sphere computed, once for each of them.
\<close>

theorem C5_pass_per_mesh:
  "work (events (snd (useCleanModel_effect lib (Some scene) (cleanScene, w)))) =
     work (events w) @ concat (map (\<lambda>r. one_pass (geometries w r)) (mesh_geometries scene)) \<and>
   (\<forall>position. attributes geom ''position'' = Some position \<longrightarrow>
      work (snd (clean_geometry lib geom [])) =
        map Iteration [0..<length (array position)] @ [Call_computeBoundingSphere] \<and>
      (\<forall>i < length (array position). count_list (snd (clean_geometry lib geom [])) (Iteration i) = 1) \<and>
      count_list (snd (clean_geometry lib geom [])) Call_computeBoundingSphere = 1)"
proof -
  have whole: "work (events (snd (useCleanModel_effect lib (Some scene) (cleanScene, w)))) =
     work (events w) @ concat (map (\<lambda>r. one_pass (geometries w r)) (mesh_geometries scene))"
    by (simp add: effect_Some work_fold mesh_geometries_nodes)
  have one: "work (snd (clean_geometry lib geom [])) =
        map Iteration [0..<length (array position)] @ [Call_computeBoundingSphere] \<and>
      (\<forall>i < length (array position). count_list (snd (clean_geometry lib geom [])) (Iteration i) = 1) \<and>
      count_list (snd (clean_geometry lib geom [])) Call_computeBoundingSphere = 1"
    if pos: "attributes geom ''position'' = Some position" for position
  proof -
    let ?evs = "snd (clean_geometry lib geom [])"
    have w: "work ?evs = map Iteration [0..<length (array position)] @ [Call_computeBoundingSphere]"
      using work_clean_geometry [of lib geom "[]"] by (simp add: one_pass_def pos work_def)
    have count: "count_list ?evs e = count_list (work ?evs) e" if "is_work e" for e
      unfolding work_def using that by (simp add: count_list_filter)
    have "count_list (map Iteration ns) Call_computeBoundingSphere = 0" for ns
      by (induction ns) simp_all
    then have calls: "count_list ?evs Call_computeBoundingSphere = 1"
      by (simp add: count w)
    have "count_list (map Iteration ns) (Iteration i) = count_list ns i" for ns i
      by (induction ns) simp_all
    moreover have "count_list [0..<n] i = 1" if "i < n" for i n
      using that by (induction n) (auto simp: less_Suc_eq count_list_0_iff)
    ultimately have "\<forall>i < length (array position). count_list ?evs (Iteration i) = 1"
      by (simp add: count w)
    with w calls show ?thesis by simp
  qed
  from whole one show ?thesis by blast
qed

text \<open>
  C5 on the example geometry (six elements), and on the example scene, where two meshes
  refer to that geometry.
\<close>

theorem C5_pass_per_mesh_witness:
  "attributes example_geometry ''position'' = Some example_position \<and>
   work (snd (clean_geometry example_library example_geometry [])) =
     [Iteration 0, Iteration 1, Iteration 2, Iteration 3, Iteration 4, Iteration 5,
      Call_computeBoundingSphere] \<and>
   count_list (snd (clean_geometry example_library example_geometry [])) (Iteration 3) = 1 \<and>
   count_list (snd (clean_geometry example_library example_geometry [])) Call_computeBoundingSphere = 1 \<and>
   work (events (snd (useCleanModel_effect example_library (Some example_scene) (None, example_world)))) =
     [Iteration 0, Iteration 1, Iteration 2, Iteration 3, Iteration 4, Iteration 5,
      Call_computeBoundingSphere,
      Iteration 0, Iteration 1, Iteration 2, Iteration 3, Iteration 4, Iteration 5,
      Call_computeBoundingSphere]"
proof -
  have h: "attributes example_geometry ''position'' = Some example_position"
    by (simp add: example_geometry_def)
  have len: "length (array example_position) = 6"
    by (simp add: example_position_def)
  have upt: "[0..<6] = [0, 1, 2, 3, 4, 5::nat]"
    by code_simp
  have meshes: "mesh_geometries example_scene = [0, 0]"
    by (simp add: example_scene_def mesh_geometries_def mesh_geometry_def)
  have pass: "one_pass example_geometry =
     [Iteration 0, Iteration 1, Iteration 2, Iteration 3, Iteration 4, Iteration 5,
      Call_computeBoundingSphere]"
    by (simp add: one_pass_def h len upt)
  have start: "work (events example_world) = []" "geometries example_world 0 = example_geometry"
    by (simp_all add: example_world_def work_def)
  from C5_pass_per_mesh [of example_library example_scene None example_world example_geometry]
  have whole: "work (events (snd (useCleanModel_effect example_library (Some example_scene)
          (None, example_world)))) =
        work (events example_world) @
        concat (map (\<lambda>r. one_pass (geometries example_world r)) (mesh_geometries example_scene))"
    and one: "work (snd (clean_geometry example_library example_geometry [])) =
        map Iteration [0..<length (array example_position)] @ [Call_computeBoundingSphere] \<and>
      (\<forall>i < length (array example_position).
         count_list (snd (clean_geometry example_library example_geometry [])) (Iteration i) = 1) \<and>
      count_list (snd (clean_geometry example_library example_geometry [])) Call_computeBoundingSphere = 1"
    using h by blast+
  from one have "count_list (snd (clean_geometry example_library example_geometry [])) (Iteration 3) = 1"
    by (simp add: len)
  with whole one h show ?thesis
    by (simp add: meshes start pass len upt)
qed

text \<open>
  C5 as it was stated, one scan of each array and one computation for each geometry,
  fails on the example scene: its two meshes refer to one geometry, the only one that
  the pass works on, and that geometry's array is scanned twice and its sphere computed
  twice.
\<close>

theorem C5_shared_geometry_counterexample:
  "remdups (mesh_geometries example_scene) = [0] \<and>
   events (snd (useCleanModel_effect example_library (Some example_scene) (None, example_world))) =
     [Iteration 0, Iteration 1, Iteration 2, Iteration 3, Iteration 4, Iteration 5,
      Console_log ''Fixed NaN values in geometry'', Set_needsUpdate, Call_computeBoundingSphere,
      Iteration 0, Iteration 1, Iteration 2, Iteration 3, Iteration 4, Iteration 5,
      Call_computeBoundingSphere] \<and>
   count_list (events (snd (useCleanModel_effect example_library (Some example_scene)
     (None, example_world)))) Call_computeBoundingSphere = 2 \<and>
   count_list (events (snd (useCleanModel_effect example_library (Some example_scene)
     (None, example_world)))) (Iteration 0) = 2"
proof -
  have meshes: "remdups (mesh_geometries example_scene) = [0]"
    by (simp add: example_scene_def mesh_geometries_def mesh_geometry_def)
  have run: "events (snd (useCleanModel_effect example_library (Some example_scene)
        (None, example_world))) =
     [Iteration 0, Iteration 1, Iteration 2, Iteration 3, Iteration 4, Iteration 5,
      Console_log ''Fixed NaN values in geometry'', Set_needsUpdate, Call_computeBoundingSphere,
      Iteration 0, Iteration 1, Iteration 2, Iteration 3, Iteration 4, Iteration 5,
      Call_computeBoundingSphere]"
    by (rule example_run)
  show ?thesis
    unfolding run using meshes by simp
qed

subsection \<open>What the pass leaves alone\<close>

text \<open>
  C6, with the objects that are written. The effect of \<open>useCleanModel\<close> on a scene leaves
  the nodes of the scene and every material as they are. In a geometry object it writes
  only \<open>boundingSphere\<close>, and only when a mesh of the scene refers to the geometry. In an
  attribute object it writes only \<open>needsUpdate\<close>, and only when the attribute is the
  position attribute of such a geometry. In a typed array it only replaces its NaN and
  infinite elements by 0, and only when such a position attribute refers to the array;
  every other typed array is left as it is. The callback changes nothing when its node
  is not a mesh. When every mesh geometry has its position attribute and the array of
  it to itself, every geometry reads as before except for its position attribute and
  its bounding sphere: the index and the attributes under other names (the normals, the
  uvs) are the same, the position attribute is there exactly if it was, with the same
  item size, and a geometry that no mesh refers to is unchanged.
\<close>

theorem C6_frame_in_place:
  assumes "useCleanModel_effect_in_place lib (Some scene) (cleanScene, h) = (cleanScene', h')"
  shows "cleanScene' = Some scene \<and>
         material_objects h' = material_objects h \<and>
         (\<forall>r. attribute_refs (geometry_objects h' r) = attribute_refs (geometry_objects h r) \<and>
              index_ref (geometry_objects h' r) = index_ref (geometry_objects h r)) \<and>
         (\<forall>r. r \<notin> set (mesh_geometries scene) \<longrightarrow> geometry_objects h' r = geometry_objects h r) \<and>
         (\<forall>a. array_ref (attribute_objects h' a) = array_ref (attribute_objects h a) \<and>
              item_size (attribute_objects h' a) = item_size (attribute_objects h a)) \<and>
         (\<forall>a. a \<notin> set (written_attributes h (mesh_geometries scene)) \<longrightarrow>
              attribute_objects h' a = attribute_objects h a) \<and>
         (\<forall>b. typed_arrays h' b =
              (if b \<in> set (written_arrays h (mesh_geometries scene))
               then map sanitize (typed_arrays h b) else typed_arrays h b)) \<and>
         (\<forall>child v. \<not> isMesh child \<longrightarrow> clean_child_in_place lib child (v :: 'm heap) = v) \<and>
         ((\<forall>r \<in> set (mesh_geometries scene). owned h r) \<longrightarrow>
            (\<forall>r. index (read_geometry h' r) = index (read_geometry h r) \<and>
                 (\<forall>name. name \<noteq> ''position'' \<longrightarrow>
                    attributes (read_geometry h' r) name = attributes (read_geometry h r) name) \<and>
                 map_option itemSize (attributes (read_geometry h' r) ''position'') =
                   map_option itemSize (attributes (read_geometry h r) ''position'')) \<and>
            (\<forall>r. r \<notin> set (mesh_geometries scene) \<longrightarrow> read_geometry h' r = read_geometry h r))"
proof -
  from assms have scene: "cleanScene' = Some scene"
    and h': "h' = fold (clean_child_in_place lib) (nodes scene) h"
    by (simp_all add: in_place_Some)
  have links: "links h' = links h"
    unfolding h' by (rule fold_links)
  have materials: "material_objects h' = material_objects h"
    unfolding h' by (rule fold_material_objects)
  have refs: "\<forall>r. attribute_refs (geometry_objects h' r) = attribute_refs (geometry_objects h r) \<and>
              index_ref (geometry_objects h' r) = index_ref (geometry_objects h r)"
    by (simp add: links_fields [OF links])
  have geoms: "\<forall>r. r \<notin> set (mesh_geometries scene) \<longrightarrow> geometry_objects h' r = geometry_objects h r"
    unfolding h' mesh_geometries_nodes by (simp add: fold_geometry_objects)
  have arefs: "\<forall>a. array_ref (attribute_objects h' a) = array_ref (attribute_objects h a) \<and>
              item_size (attribute_objects h' a) = item_size (attribute_objects h a)"
    by (simp add: links_fields [OF links])
  have attrs: "\<forall>a. a \<notin> set (written_attributes h (mesh_geometries scene)) \<longrightarrow>
              attribute_objects h' a = attribute_objects h a"
    unfolding h' mesh_geometries_nodes by (simp add: fold_attribute_objects)
  have arrays: "\<forall>b. typed_arrays h' b =
              (if b \<in> set (written_arrays h (mesh_geometries scene))
               then map sanitize (typed_arrays h b) else typed_arrays h b)"
    unfolding h' mesh_geometries_nodes by (simp add: fold_typed_arrays)
  have other: "\<forall>child v. \<not> isMesh child \<longrightarrow> clean_child_in_place lib child (v :: 'm heap) = v"
    by (simp add: child_in_place_other)
  have unshared: "(\<forall>r. index (read_geometry h' r) = index (read_geometry h r) \<and>
                 (\<forall>name. name \<noteq> ''position'' \<longrightarrow>
                    attributes (read_geometry h' r) name = attributes (read_geometry h r) name) \<and>
                 map_option itemSize (attributes (read_geometry h' r) ''position'') =
                   map_option itemSize (attributes (read_geometry h r) ''position'')) \<and>
            (\<forall>r. r \<notin> set (mesh_geometries scene) \<longrightarrow> read_geometry h' r = read_geometry h r)"
    if own: "\<forall>r \<in> set (mesh_geometries scene). owned h r"
  proof -
    have "view h' = fold (clean_child lib) (nodes scene) (view h)"
      unfolding h' using own by (intro view_fold) (simp add: mesh_geometries_nodes)
    then have read: "read_geometry h' r = geometries (fold (clean_child lib) (nodes scene) (view h)) r" for r
      using view_fields(1) [of h'] by simp
    have "kept (read_geometry h' r) = kept (read_geometry h r)" for r
      unfolding read by (simp add: kept_fold view_fields)
    then have "\<forall>r. index (read_geometry h' r) = index (read_geometry h r) \<and>
                 (\<forall>name. name \<noteq> ''position'' \<longrightarrow>
                    attributes (read_geometry h' r) name = attributes (read_geometry h r) name) \<and>
                 map_option itemSize (attributes (read_geometry h' r) ''position'') =
                   map_option itemSize (attributes (read_geometry h r) ''position'')"
      unfolding kept_eq by blast
    moreover have "\<forall>r. r \<notin> set (mesh_geometries scene) \<longrightarrow> read_geometry h' r = read_geometry h r"
      unfolding read mesh_geometries_nodes by (simp add: fold_untouched view_fields)
    ultimately show ?thesis by blast
  qed
  from scene materials refs geoms arefs attrs arrays other unshared show ?thesis by blast
qed

text \<open>
  C6 on the heap in which every attribute has its own array: the normals of geometry 0,
  whose first element is NaN, and geometry 1 read as before.
\<close>

theorem C6_frame_in_place_witness:
  "mesh_geometries interleaved_scene = [0] \<and>
   owned separate_heap 0 \<and>
   attributes (read_geometry separate_heap 0) ''normal'' =
     Some \<lparr>array = [NaN, Number 0, Number 1], itemSize = 3, needsUpdate = False\<rparr> \<and>
   attributes (read_geometry (snd (useCleanModel_effect_in_place example_library
       (Some interleaved_scene) (None, separate_heap))) 0) ''normal'' =
     Some \<lparr>array = [NaN, Number 0, Number 1], itemSize = 3, needsUpdate = False\<rparr> \<and>
   read_geometry (snd (useCleanModel_effect_in_place example_library
       (Some interleaved_scene) (None, separate_heap))) 1 = read_geometry separate_heap 1 \<and>
   typed_arrays (snd (useCleanModel_effect_in_place example_library
       (Some interleaved_scene) (None, separate_heap))) 0 = [Number 1, Number 0, Number 3] \<and>
   material_objects (snd (useCleanModel_effect_in_place example_library
       (Some interleaved_scene) (None, separate_heap))) = material_objects separate_heap"
proof -
  let ?st = "useCleanModel_effect_in_place example_library (Some interleaved_scene) (None, separate_heap)"
  have h: "?st = (fst ?st, snd ?st)" by simp
  have meshes: "mesh_geometries interleaved_scene = [0]"
    by (simp add: interleaved_scene_def mesh_geometries_def mesh_geometry_def)
  have own: "\<forall>r \<in> set (mesh_geometries interleaved_scene). owned separate_heap r"
    by (simp add: meshes separate_owned)
  have written: "written_arrays separate_heap (mesh_geometries interleaved_scene) = [0]"
    by (simp add: meshes written_arrays_def written_attributes_def position_attribute_def
        separate_heap_def)
  have normal: "attributes (read_geometry separate_heap 0) ''normal'' =
     Some \<lparr>array = [NaN, Number 0, Number 1], itemSize = 3, needsUpdate = False\<rparr>"
    by (simp add: read_geometry_def read_attribute_def separate_heap_def)
  have before: "typed_arrays separate_heap 0 = [Number 1, NaN, Number 3]"
    by (simp add: separate_heap_def)
  from C6_frame_in_place [OF h]
  have mats: "material_objects (snd ?st) = material_objects separate_heap"
    and arr: "typed_arrays (snd ?st) 0 =
      (if 0 \<in> set (written_arrays separate_heap (mesh_geometries interleaved_scene))
       then map sanitize (typed_arrays separate_heap 0) else typed_arrays separate_heap 0)"
    and names: "\<And>name. name \<noteq> ''position'' \<Longrightarrow>
      attributes (read_geometry (snd ?st) 0) name = attributes (read_geometry separate_heap 0) name"
    and rest: "\<And>r. r \<notin> set (mesh_geometries interleaved_scene) \<Longrightarrow>
      read_geometry (snd ?st) r = read_geometry separate_heap r"
    using own by blast+
  have "typed_arrays (snd ?st) 0 = [Number 1, Number 0, Number 3]"
    using arr by (simp add: written before sanitize_def replaced_def)
  moreover have "attributes (read_geometry (snd ?st) 0) ''normal'' =
     Some \<lparr>array = [NaN, Number 0, Number 1], itemSize = 3, needsUpdate = False\<rparr>"
    using names [of "''normal''"] normal by simp
  moreover have "read_geometry (snd ?st) 1 = read_geometry separate_heap 1"
    using rest [of 1] by (simp add: meshes)
  ultimately show ?thesis
    using meshes separate_owned normal mats by blast
qed

text \<open>
  C6 as it was stated fails on the heap with the interleaved buffer: the normal of
  geometry 0 refers to the array of its position, so its NaN is replaced; geometry 1,
  which no mesh refers to, shares the position attribute and reads differently after
  the pass.
\<close>

theorem C6_shared_array_counterexample:
  "mesh_geometries interleaved_scene = [0] \<and>
   map_option array (attributes (read_geometry interleaved_heap 0) ''normal'') =
     Some [Number 1, Number 2, Number 3, NaN, Number 0, Number 1] \<and>
   map_option array (attributes (read_geometry (snd (useCleanModel_effect_in_place example_library
       (Some interleaved_scene) (None, interleaved_heap))) 0) ''normal'') =
     Some [Number 1, Number 2, Number 3, Number 0, Number 0, Number 1] \<and>
   position_array (read_geometry interleaved_heap 1) =
     Some [Number 1, Number 2, Number 3, NaN, Number 0, Number 1] \<and>
   position_array (read_geometry (snd (useCleanModel_effect_in_place example_library
       (Some interleaved_scene) (None, interleaved_heap))) 1) =
     Some [Number 1, Number 2, Number 3, Number 0, Number 0, Number 1]"
  unfolding interleaved_run
  by (simp add: read_geometry_def read_attribute_def interleaved_heap_def interleaved_scene_def
      mesh_geometries_def mesh_geometry_def position_array_def)

subsection \<open>The same input gives the same output\<close>

text \<open>
  C7. Take two geometries whose position arrays are equal, and two runs of the pass in
  which the call of the library does the same. Then the two runs leave equal position
  arrays and equal bounding spheres, whatever else differs: the other attributes, the
  flag \<open>needsUpdate\<close>, the bounding sphere that was there before, what has happened
  earlier. Nothing that an earlier run left behind changes the result.
\<close>

theorem C7_deterministic:
  assumes "attributes geom ''position'' = Some position"
      and "attributes geom' ''position'' = Some position'"
      and "array position = array position'"
      and "lib (scanned geom) = lib' (scanned geom')"
  shows "position_array (fst (clean_geometry lib geom evs)) =
           position_array (fst (clean_geometry lib' geom' evs')) \<and>
         boundingSphere (fst (clean_geometry lib geom evs)) =
           boundingSphere (fst (clean_geometry lib' geom' evs'))"
proof -
  have "position_array geom = position_array geom'"
    using assms(1-3) by (simp add: position_array_def)
  then show ?thesis
    using assms(4)
    by (simp add: position_array_clean clean_geometry_sphere [OF assms(1)]
        clean_geometry_sphere [OF assms(2)])
qed

text \<open>
  C7 on the example geometry, fresh and with the bounding sphere and the events that an
  earlier run left.
\<close>

theorem C7_deterministic_witness:
  "attributes example_geometry ''position'' = Some example_position \<and>
   attributes (example_geometry\<lparr>boundingSphere := Some default_sphere\<rparr>) ''position'' =
     Some example_position \<and>
   example_library (scanned example_geometry) =
     example_library (scanned (example_geometry\<lparr>boundingSphere := Some default_sphere\<rparr>)) \<and>
   position_array (fst (clean_geometry example_library example_geometry [])) =
     position_array (fst (clean_geometry example_library
       (example_geometry\<lparr>boundingSphere := Some default_sphere\<rparr>) [Console_log ''earlier''])) \<and>
   boundingSphere (fst (clean_geometry example_library example_geometry [])) =
     boundingSphere (fst (clean_geometry example_library
       (example_geometry\<lparr>boundingSphere := Some default_sphere\<rparr>) [Console_log ''earlier'']))"
proof -
  have h1: "attributes example_geometry ''position'' = Some example_position"
    by (simp add: example_geometry_def)
  have h2: "attributes (example_geometry\<lparr>boundingSphere := Some default_sphere\<rparr>) ''position'' =
     Some example_position"
    by (simp add: example_geometry_def)
  have h3: "array example_position = array example_position" by simp
  have h4: "example_library (scanned example_geometry) =
     example_library (scanned (example_geometry\<lparr>boundingSphere := Some default_sphere\<rparr>))"
    by (simp add: example_library_def)
  show ?thesis
    using h1 h2 h3 h4
      C7_deterministic [where ?geom = example_geometry and ?position = example_position
        and ?geom' = "example_geometry\<lparr>boundingSphere := Some default_sphere\<rparr>"
        and ?position' = example_position and ?lib = example_library
        and ?lib' = example_library and ?evs = "[]" and ?evs' = "[Console_log ''earlier'']"]
    by blast
qed

subsection \<open>Scanning again\<close>

text \<open>
  C8. The scan of an array whose elements are all finite returns the array as it is,
  with \<open>needsFix\<close> false. The array that a scan returns has only finite elements, so a
  second scan of it returns it unchanged and with \<open>needsFix\<close> false: scanning twice is
  scanning once.
\<close>

theorem C8_scan_idempotent:
  "((\<forall>v \<in> set arr. isFinite v) \<longrightarrow>
      scan_loop 0 arr False evs = (arr, False, evs @ map Iteration [0..<length arr])) \<and>
   (\<forall>v \<in> set (fst (scan_loop 0 arr False evs)). isFinite v) \<and>
   scan_loop 0 (fst (scan_loop 0 arr False evs)) False evs' =
     (fst (scan_loop 0 arr False evs), False, evs' @ map Iteration [0..<length arr])"
proof -
  have clean: "scan_loop 0 a False e = (a, False, e @ map Iteration [0..<length a])"
    if "\<forall>v \<in> set a. isFinite v" for a e
    using that by (simp add: scan_loop_0 replaced_iff map_sanitize_id)
  have fin: "\<forall>v \<in> set (fst (scan_loop 0 arr False evs)). isFinite v"
    by (simp add: scan_loop_0 sanitize_finite)
  have len: "length (fst (scan_loop 0 arr False evs)) = length arr"
    by (simp add: scan_loop_0)
  show ?thesis
    using clean [of arr evs] clean [OF fin, of evs'] fin by (simp add: len)
qed

text \<open>C8 on \<open>[1, 2]\<close>, and on \<open>[NaN, 2]\<close> scanned twice.\<close>

theorem C8_scan_idempotent_witness:
  "isFinite (Number 1) \<and> isFinite (Number 2) \<and>
   scan_loop 0 [Number 1, Number 2] False [] =
     ([Number 1, Number 2], False, [Iteration 0, Iteration 1]) \<and>
   scan_loop 0 (fst (scan_loop 0 [NaN, Number 2] False [])) False [] =
     (fst (scan_loop 0 [NaN, Number 2] False []), False, [Iteration 0, Iteration 1])"
  using C8_scan_idempotent [of "[Number 1, Number 2]" "[]" "[]"]
    C8_scan_idempotent [of "[NaN, Number 2]" "[]" "[]"]
  by (simp add: upt_rec_numeral)

text \<open>
  C10. The pass assigns \<open>position.needsUpdate = true\<close> exactly if some element of the
  array was NaN, \<open>Infinity\<close> or \<open>-Infinity\<close>. The flag is then true; otherwise it is not
  assigned and keeps the value it had.
\<close>

theorem C10_needsUpdate:
  "(Set_needsUpdate \<in> set (snd (fix_position position [])) \<longleftrightarrow>
      (\<exists>v \<in> set (array position). v = NaN \<or> v = Infinity \<or> v = NegInfinity)) \<and>
   needsUpdate (fst (fix_position position evs)) =
     (if \<exists>v \<in> set (array position). v = NaN \<or> v = Infinity \<or> v = NegInfinity
      then True else needsUpdate position)"
proof -
  have "(\<exists>v \<in> set (array position). replaced v) \<longleftrightarrow>
        (\<exists>v \<in> set (array position). v = NaN \<or> v = Infinity \<or> v = NegInfinity)"
    by (simp add: replaced_cases)
  then show ?thesis
    by (auto simp: fix_position_eq cleaned_position_flag)
qed

text \<open>C10 on the example array, which has such elements, and on one that has none.\<close>

theorem C10_needsUpdate_witness:
  "Set_needsUpdate \<in> set (snd (fix_position example_position [])) \<and>
   needsUpdate (fst (fix_position example_position [])) \<and>
   Set_needsUpdate \<notin> set (snd (fix_position point_position [])) \<and>
   \<not> needsUpdate (fst (fix_position point_position []))"
  using C10_needsUpdate [of example_position "[]"] C10_needsUpdate [of point_position "[]"]
  by (simp add: example_position_def point_position_def)

end
